theory Spec2Isabelle
  imports Complex_Main
begin

section \<open>Data model\<close>

text \<open>
  A Python \<open>str\<close> is a sequence of Unicode code points; a character is modelled by its
  code point, so \<open>len\<close> counts code points as Python does. ASCII literals are written
  through \<open>of_ascii\<close>.

  Python ints are \<open>int\<close>. Python floats are modelled by real numbers: the rounding of
  IEEE-754 arithmetic is not part of the model.
\<close>

type_synonym pychar = nat
type_synonym pystr = "pychar list"

definition of_ascii :: "string \<Rightarrow> pystr" where
  "of_ascii s = map of_char s"

text \<open>
  The exceptions the program can raise. \<open>RuntimeError\<close>, \<open>FileNotFoundError\<close> and
  \<open>PermissionError\<close> carry their argument; \<open>ExternalError\<close> is an exception raised
  inside an external collaborator (the HTTP transport, zxcvbn, the package installer),
  with its text.
\<close>

datatype py_error =
    FileNotFoundError pystr
  | PermissionError pystr
  | RuntimeError pystr
  | ValueError
  | UnicodeEncodeError
  | KeyError
  | ZeroDivisionError
  | ExternalError pystr

text \<open>
  What the program asks of the Python runtime and is not part of its source: the Unicode
  character database beyond ASCII (the ASCII range is written out below), and the result
  of \<open>int()\<close> on a string that is not a plain run of ASCII digits (signs, white space,
  underscores, other scripts, the configurable limit on very long numerals).
\<close>

record runtime =
  uc_isupper :: "pychar \<Rightarrow> bool"
  uc_islower :: "pychar \<Rightarrow> bool"
  uc_isdigit :: "pychar \<Rightarrow> bool"
  uc_isalnum :: "pychar \<Rightarrow> bool"
  int_other :: "pystr \<Rightarrow> py_error + int"

section \<open>Character classifier\<close>

definition isupper :: "runtime \<Rightarrow> pychar \<Rightarrow> bool" where
  "isupper rt c = (if c < 128 then 65 \<le> c \<and> c \<le> 90 else uc_isupper rt c)"

definition islower :: "runtime \<Rightarrow> pychar \<Rightarrow> bool" where
  "islower rt c = (if c < 128 then 97 \<le> c \<and> c \<le> 122 else uc_islower rt c)"

definition isdigit :: "runtime \<Rightarrow> pychar \<Rightarrow> bool" where
  "isdigit rt c = (if c < 128 then 48 \<le> c \<and> c \<le> 57 else uc_isdigit rt c)"

definition isalnum :: "runtime \<Rightarrow> pychar \<Rightarrow> bool" where
  "isalnum rt c =
     (if c < 128 then (65 \<le> c \<and> c \<le> 90) \<or> (97 \<le> c \<and> c \<le> 122) \<or> (48 \<le> c \<and> c \<le> 57)
      else uc_isalnum rt c)"

text \<open>\<open>any(f(c) for c in password)\<close>\<close>

definition any_char :: "(pychar \<Rightarrow> bool) \<Rightarrow> pystr \<Rightarrow> bool" where
  "any_char f password = list_ex f password"

definition char_classes :: "runtime \<Rightarrow> pystr \<Rightarrow> bool \<times> bool \<times> bool \<times> bool" where
  "char_classes rt password =
     (let has_upper = any_char (isupper rt) password;
          has_lower = any_char (islower rt) password;
          has_digit = any_char (isdigit rt) password;
          has_special = any_char (\<lambda>c. \<not> isalnum rt c) password
      in (has_upper, has_lower, has_digit, has_special))"

text \<open>\<open>sum([has_upper, has_lower, has_digit, has_special])\<close>: a true flag counts 1.\<close>

definition sum_flags :: "bool \<times> bool \<times> bool \<times> bool \<Rightarrow> int" where
  "sum_flags fl =
     (case fl of (has_upper, has_lower, has_digit, has_special) \<Rightarrow>
        of_bool has_upper + of_bool has_lower + of_bool has_digit + of_bool has_special)"

section \<open>Entropy estimator\<close>

text \<open>
  The frequency dictionary keeps its keys in insertion order, and the second loop runs
  over its values in that order: it is an association list, \<open>dict_set\<close> replacing the
  value of a key in place and appending a new key at the end.
\<close>

type_synonym freq_dict = "(pychar \<times> int) list"

fun dict_get :: "freq_dict \<Rightarrow> pychar \<Rightarrow> int \<Rightarrow> int" where
  "dict_get [] k d = d"
| "dict_get ((k', v) # kvs) k d = (if k' = k then v else dict_get kvs k d)"

fun dict_set :: "freq_dict \<Rightarrow> pychar \<Rightarrow> int \<Rightarrow> freq_dict" where
  "dict_set [] k v = [(k, v)]"
| "dict_set ((k', v') # kvs) k v =
     (if k' = k then (k, v) # kvs else (k', v') # dict_set kvs k v)"

definition dict_values :: "freq_dict \<Rightarrow> int list" where
  "dict_values frequency = map snd frequency"

text \<open>\<open>for char in password: frequency[char] = frequency.get(char, 0) + 1\<close>\<close>

fun count_chars :: "freq_dict \<Rightarrow> pystr \<Rightarrow> freq_dict" where
  "count_chars frequency [] = frequency"
| "count_chars frequency (char # rest) =
     count_chars (dict_set frequency char (dict_get frequency char 0 + 1)) rest"

text \<open>\<open>count / length\<close> raises on a zero divisor, \<open>math.log2\<close> outside its domain.\<close>

definition true_div :: "int \<Rightarrow> int \<Rightarrow> py_error + real" where
  "true_div a b = (if b = 0 then Inl ZeroDivisionError else Inr (of_int a / of_int b))"

definition math_log2 :: "real \<Rightarrow> py_error + real" where
  "math_log2 x = (if x \<le> 0 then Inl ValueError else Inr (log 2 x))"

text \<open>\<open>for count in frequency.values(): p = count / length; entropy -= p * math.log2(p)\<close>\<close>

fun entropy_loop :: "real \<Rightarrow> int \<Rightarrow> int list \<Rightarrow> py_error + real" where
  "entropy_loop entropy len [] = Inr entropy"
| "entropy_loop entropy len (count # counts) =
     (case true_div count len of
        Inl e \<Rightarrow> Inl e
      | Inr p \<Rightarrow>
          (case math_log2 p of
             Inl e \<Rightarrow> Inl e
           | Inr l \<Rightarrow> entropy_loop (entropy - p * l) len counts))"

definition shannon_entropy :: "pystr \<Rightarrow> py_error + real" where
  "shannon_entropy password =
     (if password = [] then Inr 0
      else
        let frequency = count_chars [] password;
            len = int (length password)
        in (case entropy_loop 0 len (dict_values frequency) of
              Inl e \<Rightarrow> Inl e
            | Inr entropy \<Rightarrow> Inr (entropy * of_int len)))"

text \<open>
  The specification's formula: the Shannon entropy of the empirical distribution of the
  characters of \<open>s\<close>, in bits per character.
\<close>

definition char_prob :: "pystr \<Rightarrow> pychar \<Rightarrow> real" where
  "char_prob s c = real (count_list s c) / real (length s)"

definition empirical_entropy :: "pystr \<Rightarrow> real" where
  "empirical_entropy s = - (\<Sum>c \<in> set s. char_prob s c * log 2 (char_prob s c))"

section \<open>Composite scorer\<close>

text \<open>The four threshold tests of \<open>simple_score\<close>, each adding one to the running score.\<close>

definition score_steps :: "int \<Rightarrow> int \<Rightarrow> real \<Rightarrow> int" where
  "score_steps len classes entropy =
     (let score = 0;
          score = (if len \<ge> 8 then score + 1 else score);
          score = (if len \<ge> 12 then score + 1 else score);
          score = (if classes \<ge> 2 then score + 1 else score);
          score = (if classes \<ge> 3 \<and> entropy \<ge> 40 then score + 1 else score)
      in score)"

text \<open>The label dictionary; a subscript with a missing key raises \<open>KeyError\<close>.\<close>

definition label_table :: "int \<Rightarrow> string option" where
  "label_table =
     [0 \<mapsto> ''Very weak'', 1 \<mapsto> ''Weak'', 2 \<mapsto> ''Moderate'', 3 \<mapsto> ''Strong'',
      4 \<mapsto> ''Very strong'']"

definition label_lookup :: "int \<Rightarrow> py_error + pystr" where
  "label_lookup k = (case label_table k of None \<Rightarrow> Inl KeyError | Some l \<Rightarrow> Inr (of_ascii l))"

definition simple_score :: "runtime \<Rightarrow> pystr \<Rightarrow> py_error + (int \<times> pystr)" where
  "simple_score rt password =
     (let len = int (length password);
          classes = sum_flags (char_classes rt password)
      in (case shannon_entropy password of
            Inl e \<Rightarrow> Inl e
          | Inr entropy \<Rightarrow>
              (let score = score_steps len classes entropy
               in (case label_lookup (min score 4) of
                     Inl e \<Rightarrow> Inl e
                   | Inr label \<Rightarrow> Inr (score, label)))))"

section \<open>String operations of the runtime\<close>

text \<open>\<open>s.rstrip(chars)\<close>: drop the trailing characters that occur in \<open>chars\<close>.\<close>

definition rstrip :: "pystr \<Rightarrow> pystr \<Rightarrow> pystr" where
  "rstrip chars s = rev (dropWhile (\<lambda>c. c \<in> set chars) (rev s))"

text \<open>\<open>s.split(sep)\<close> for a one-character separator.\<close>

fun split_on :: "pychar \<Rightarrow> pystr \<Rightarrow> pystr list" where
  "split_on sep [] = [[]]"
| "split_on sep (c # cs) =
     (if c = sep then [] # split_on sep cs
      else (case split_on sep cs of
              [] \<Rightarrow> [[c]]
            | part # parts \<Rightarrow> (c # part) # parts))"

text \<open>
  \<open>s.splitlines()\<close>: the line boundaries are LF, CR, CR LF, VT, FF, FS, GS, RS, NEL, LS
  and PS; the boundaries are dropped and no empty last line is produced.
\<close>

definition is_linebreak :: "pychar \<Rightarrow> bool" where
  "is_linebreak c = (c \<in> set [10, 11, 12, 13, 28, 29, 30, 133, 8232, 8233])"

fun splitlines_from :: "pystr \<Rightarrow> bool \<Rightarrow> pystr \<Rightarrow> pystr list" where
  "splitlines_from cur after_cr [] = (if cur = [] then [] else [rev cur])"
| "splitlines_from cur after_cr (c # cs) =
     (if after_cr \<and> c = 10 then splitlines_from cur False cs
      else if is_linebreak c then rev cur # splitlines_from [] (c = 13) cs
      else splitlines_from (c # cur) False cs)"

definition splitlines :: "pystr \<Rightarrow> pystr list" where
  "splitlines s = splitlines_from [] False s"

text \<open>\<open>str(n)\<close> for an int, as the f-string formats the status code.\<close>

fun str_nat :: "nat \<Rightarrow> pystr" where
  "str_nat n = (if n < 10 then [48 + n] else str_nat (n div 10) @ [48 + n mod 10])"

definition str_int :: "int \<Rightarrow> pystr" where
  "str_int i = (if i < 0 then 45 # str_nat (nat (- i)) else str_nat (nat i))"

text \<open>
  \<open>s.upper()\<close> on the ASCII range; a SHA-1 \<open>hexdigest()\<close> consists of the characters
  \<open>0-9a-f\<close>, on which \<open>upper\<close> is this mapping.
\<close>

definition upper :: "pystr \<Rightarrow> pystr" where
  "upper s = map (\<lambda>c. if 97 \<le> c \<and> c \<le> 122 then c - 32 else c) s"

text \<open>
  \<open>s.encode("utf-8")\<close>: a surrogate code point cannot be encoded and raises
  \<open>UnicodeEncodeError\<close> (such a character reaches the program from a command-line
  argument that is not valid UTF-8).
\<close>

definition is_surrogate :: "pychar \<Rightarrow> bool" where
  "is_surrogate c = (55296 \<le> c \<and> c \<le> 57343)"

definition utf8_char :: "pychar \<Rightarrow> nat list" where
  "utf8_char c =
     (if c < 128 then [c]
      else if c < 2048 then [192 + c div 64, 128 + c mod 64]
      else if c < 65536 then [224 + c div 4096, 128 + (c div 64) mod 64, 128 + c mod 64]
      else [240 + c div 262144, 128 + (c div 4096) mod 64, 128 + (c div 64) mod 64,
            128 + c mod 64])"

definition encode_utf8 :: "pystr \<Rightarrow> py_error + nat list" where
  "encode_utf8 s =
     (if list_ex is_surrogate s then Inl UnicodeEncodeError
      else Inr (concat (map utf8_char s)))"

text \<open>
  \<open>int(s)\<close>: a non-empty run of at most 640 ASCII digits is read in base 10 by every
  Python 3 (the digit limit of the runtime cannot be set below 640); any other argument
  is answered by the runtime.
\<close>

definition is_ascii_digit :: "pychar \<Rightarrow> bool" where
  "is_ascii_digit c = (48 \<le> c \<and> c \<le> 57)"

definition plain_digits :: "pystr \<Rightarrow> bool" where
  "plain_digits s = (s \<noteq> [] \<and> length s \<le> 640 \<and> list_all is_ascii_digit s)"

definition decimal_value :: "pystr \<Rightarrow> nat" where
  "decimal_value s = foldl (\<lambda>acc c. 10 * acc + (c - 48)) 0 s"

definition py_int :: "runtime \<Rightarrow> pystr \<Rightarrow> py_error + int" where
  "py_int rt s = (if plain_digits s then Inr (int (decimal_value s)) else int_other rt s)"

section \<open>Wordlist matcher\<close>

text \<open>
  What the file system holds at a path: nothing that \<open>os.path.isfile\<close> accepts (no
  entry, or a directory), a regular file that \<open>open\<close> refuses with \<open>PermissionError\<close>, or
  a regular file, given by the lines that iterating over the opened file yields.
\<close>

datatype fs_entry = NotAFile | Unreadable | Lines "pystr list"

text \<open>\<open>for line in f: if line.rstrip("\r\n") == password_stripped: return True\<close>\<close>

fun scan_lines :: "pystr \<Rightarrow> pystr list \<Rightarrow> bool" where
  "scan_lines password_stripped [] = False"
| "scan_lines password_stripped (line # rest) =
     (if rstrip [13, 10] line = password_stripped then True
      else scan_lines password_stripped rest)"

definition check_local_wordlist :: "(pystr \<Rightarrow> fs_entry) \<Rightarrow> pystr \<Rightarrow> pystr \<Rightarrow> py_error + bool"
  where
  "check_local_wordlist fs password path =
     (case fs path of
        NotAFile \<Rightarrow> Inl (FileNotFoundError path)
      | Unreadable \<Rightarrow> Inl (PermissionError path)
      | Lines ls \<Rightarrow> Inr (scan_lines (rstrip [10] password) ls))"

section \<open>Breach lookup client\<close>

record response =
  status_code :: int
  body_text :: pystr

datatype pyval =
    VNone
  | VBool bool
  | VInt int
  | VFloat real
  | VStr pystr
  | VStrOf py_error
  | VDict "(string \<times> pyval) list"

text \<open>
  The collaborators of the program: the runtime tables; the module-level \<open>zxcvbn\<close>
  (absent, or its \<open>zxcvbn\<close> function, returning a dictionary or raising); the file system;
  what \<open>ensure_package("requests")\<close> does when it is called (it raises, or returns the
  module, \<open>True\<close>, or \<open>None\<close>, \<open>False\<close>); \<open>requests.get(url, timeout=10)\<close>, which raises or
  returns a response; and \<open>hashlib.sha1(bytes).hexdigest()\<close>.
\<close>

record env =
  env_rt :: runtime
  env_zxcvbn :: "(pystr \<Rightarrow> py_error + (string \<times> pyval) list) option"
  env_fs :: "pystr \<Rightarrow> fs_entry"
  env_ensure_requests :: "py_error + bool"
  env_get :: "pystr \<Rightarrow> py_error + response"
  env_sha1 :: "nat list \<Rightarrow> pystr"

text \<open>
  The state that a call can change: whether the global \<open>requests\<close> holds the module, and
  the URLs of the requests issued so far, oldest first.
\<close>

record world =
  requests_loaded :: bool
  sent :: "pystr list"

text \<open>
  \<open>if requests is None: requests = ensure_package("requests")\<close>. What the program
  prints is not part of the model.
\<close>

definition load_requests :: "env \<Rightarrow> world \<Rightarrow> (py_error + bool) \<times> world" where
  "load_requests env w =
     (if requests_loaded w then (Inr True, w)
      else (case env_ensure_requests env of
              Inl e \<Rightarrow> (Inl e, w)
            | Inr loaded \<Rightarrow> (Inr loaded, w\<lparr>requests_loaded := loaded\<rparr>)))"

text \<open>
  \<open>for line in resp.text.splitlines(): h, count = line.split(":"); if h == suffix:
  return int(count)\<close>; unpacking anything but two parts raises \<open>ValueError\<close>.
\<close>

fun scan_response :: "runtime \<Rightarrow> pystr \<Rightarrow> pystr list \<Rightarrow> py_error + int" where
  "scan_response rt suffix [] = Inr 0"
| "scan_response rt suffix (line # rest) =
     (case split_on 58 line of
        [h, count] \<Rightarrow> (if h = suffix then py_int rt count else scan_response rt suffix rest)
      | _ \<Rightarrow> Inl ValueError)"

definition range_url :: "pystr \<Rightarrow> pystr" where
  "range_url prefix = of_ascii ''https://api.pwnedpasswords.com/range/'' @ prefix"

definition hibp_pwned_count :: "env \<Rightarrow> world \<Rightarrow> pystr \<Rightarrow> (py_error + int) \<times> world" where
  "hibp_pwned_count env w password =
     (case load_requests env w of
        (Inl e, w1) \<Rightarrow> (Inl e, w1)
      | (Inr False, w1) \<Rightarrow> (Inr (- 1), w1)
      | (Inr True, w1) \<Rightarrow>
          (case encode_utf8 password of
             Inl e \<Rightarrow> (Inl e, w1)
           | Inr bytes \<Rightarrow>
               (let sha1 = upper (env_sha1 env bytes);
                    prefix = take 5 sha1;
                    suffix = drop 5 sha1;
                    url = range_url prefix;
                    w2 = w1\<lparr>sent := sent w1 @ [url]\<rparr>
                in (case env_get env url of
                      Inl e \<Rightarrow> (Inl e, w2)
                    | Inr resp \<Rightarrow>
                        (if status_code resp \<noteq> 200
                         then (Inl (RuntimeError
                                 (of_ascii ''HIBP API error: '' @ str_int (status_code resp))), w2)
                         else (scan_response (env_rt env) suffix
                                 (splitlines (body_text resp)), w2))))))"

section \<open>Analysis orchestrator\<close>

text \<open>
  \<open>round(x, 2)\<close>: the nearest multiple of one hundredth, a tie going to the even
  neighbour.
\<close>

definition round_half_even :: "real \<Rightarrow> int" where
  "round_half_even y =
     (let f = \<lfloor>y\<rfloor>; d = y - of_int f
      in if d < 1 / 2 then f
         else if 1 / 2 < d then f + 1
         else if even f then f else f + 1)"

definition round2 :: "real \<Rightarrow> real" where
  "round2 x = of_int (round_half_even (x * 100)) / 100"

text \<open>
  The result dictionary \<open>out\<close> maps a key to its value; a key that was never assigned is
  absent.
\<close>

type_synonym result = "string \<Rightarrow> pyval option"

text \<open>Lines 130 to 140: the fields that every analysis computes.\<close>

definition core_fields :: "runtime \<Rightarrow> pystr \<Rightarrow> py_error + result" where
  "core_fields rt password =
     (let out = Map.empty;
          out = out(''password_length'' \<mapsto> VInt (int (length password)))
      in (case char_classes rt password of
            (has_upper, has_lower, has_digit, has_special) \<Rightarrow>
              (let out = out(''has_upper'' \<mapsto> VBool has_upper);
                   out = out(''has_lower'' \<mapsto> VBool has_lower);
                   out = out(''has_digit'' \<mapsto> VBool has_digit);
                   out = out(''has_special'' \<mapsto> VBool has_special)
               in (case shannon_entropy password of
                     Inl e \<Rightarrow> Inl e
                   | Inr entropy \<Rightarrow>
                       (let out = out(''entropy_bits'' \<mapsto> VFloat (round2 entropy))
                        in (case simple_score rt password of
                              Inl e \<Rightarrow> Inl e
                            | Inr (score, label) \<Rightarrow>
                                (let out = out(''simple_score'' \<mapsto> VInt score);
                                     out = out(''label'' \<mapsto> VStr label)
                                 in Inr out)))))))"

text \<open>\<open>zx.get(key)\<close> and \<open>zx.get(key, default)\<close> on the dictionary zxcvbn returns.\<close>

definition zx_get :: "(string \<times> pyval) list \<Rightarrow> string \<Rightarrow> pyval \<Rightarrow> pyval" where
  "zx_get zx key dflt = (case map_of zx key of None \<Rightarrow> dflt | Some v \<Rightarrow> v)"

text \<open>\<open>if zxcvbn: try: ... except Exception: out["zxcvbn_score"] = None\<close>\<close>

definition zxcvbn_step :: "env \<Rightarrow> pystr \<Rightarrow> result \<Rightarrow> result" where
  "zxcvbn_step env password out =
     (case env_zxcvbn env of
        None \<Rightarrow> out
      | Some zxcvbn \<Rightarrow>
          (case zxcvbn password of
             Inl e \<Rightarrow> out(''zxcvbn_score'' \<mapsto> VNone)
           | Inr zx \<Rightarrow>
               (let out = out(''zxcvbn_score'' \<mapsto> zx_get zx ''score'' VNone);
                    out = out(''zxcvbn_feedback'' \<mapsto> zx_get zx ''feedback'' (VDict []))
                in out)))"

text \<open>
  \<open>if wordlist: try: ... except FileNotFoundError: ...\<close>; \<open>None\<close> and the empty string
  are false. An exception other than \<open>FileNotFoundError\<close> is not caught here.
\<close>

definition wordlist_step :: "env \<Rightarrow> pystr \<Rightarrow> pystr option \<Rightarrow> result \<Rightarrow> py_error + result"
  where
  "wordlist_step env password wordlist out =
     (case wordlist of
        None \<Rightarrow> Inr out
      | Some path \<Rightarrow>
          (if path = [] then Inr out
           else (case check_local_wordlist (env_fs env) password path of
                   Inr found \<Rightarrow> Inr (out(''found_in_wordlist'' \<mapsto> VBool found))
                 | Inl (FileNotFoundError p) \<Rightarrow>
                     (let out = out(''found_in_wordlist'' \<mapsto> VNone);
                          out = out(''wordlist_error'' \<mapsto>
                                  VStr (of_ascii ''Wordlist not found: '' @ path))
                      in Inr out)
                 | Inl e \<Rightarrow> Inl e)))"

text \<open>\<open>if hibp: try: ... except Exception as e: out["hibp_error"] = str(e)\<close>\<close>

definition hibp_step :: "env \<Rightarrow> world \<Rightarrow> pystr \<Rightarrow> bool \<Rightarrow> result \<Rightarrow> result \<times> world" where
  "hibp_step env w password hibp out =
     (if hibp then
        (case hibp_pwned_count env w password of
           (Inr n, w') \<Rightarrow> (out(''hibp_count'' \<mapsto> VInt n), w')
         | (Inl e, w') \<Rightarrow> (out(''hibp_error'' \<mapsto> VStrOf e), w'))
      else (out, w))"

definition verbose_step :: "runtime \<Rightarrow> pystr \<Rightarrow> bool \<Rightarrow> result \<Rightarrow> result" where
  "verbose_step rt password verbose out =
     (if verbose then
        out(''complex'' \<mapsto>
          VDict [(''classes_count'', VInt (sum_flags (char_classes rt password)))])
      else out)"

definition analyze_password ::
  "env \<Rightarrow> world \<Rightarrow> pystr \<Rightarrow> pystr option \<Rightarrow> bool \<Rightarrow> bool \<Rightarrow> (py_error + result) \<times> world"
  where
  "analyze_password env w password wordlist hibp verbose =
     (case core_fields (env_rt env) password of
        Inl e \<Rightarrow> (Inl e, w)
      | Inr out \<Rightarrow>
          (let out = zxcvbn_step env password out
           in (case wordlist_step env password wordlist out of
                 Inl e \<Rightarrow> (Inl e, w)
               | Inr out \<Rightarrow>
                   (case hibp_step env w password hibp out of
                      (out, w') \<Rightarrow>
                        (Inr (verbose_step (env_rt env) password verbose out), w')))))"

section \<open>What the breach lookup reveals\<close>

text \<open>
  The part of a password that the URL of the range request is built from: nothing when
  the password cannot be encoded (no request is made), otherwise the first five
  characters of its upper-case digest.
\<close>

definition hibp_prefix :: "env \<Rightarrow> pystr \<Rightarrow> pystr option" where
  "hibp_prefix env password =
     (case encode_utf8 password of
        Inl e \<Rightarrow> None
      | Inr bytes \<Rightarrow> Some (take 5 (upper (env_sha1 env bytes))))"

definition hibp_suffix :: "env \<Rightarrow> pystr \<Rightarrow> pystr" where
  "hibp_suffix env password =
     (case encode_utf8 password of
        Inl e \<Rightarrow> []
      | Inr bytes \<Rightarrow> drop 5 (upper (env_sha1 env bytes)))"

text \<open>
  A line of the response that unpacks into a hash suffix and a count, and the lines that
  the scan passes over: well formed, with another suffix.
\<close>

definition passes_over :: "pystr \<Rightarrow> pystr \<Rightarrow> bool" where
  "passes_over suffix line = (case split_on 58 line of [h, count] \<Rightarrow> h \<noteq> suffix | _ \<Rightarrow> False)"


section \<open>Example environments\<close>

text \<open>
  A runtime whose tables beyond ASCII are empty and whose \<open>int()\<close> rejects what is not a
  plain run of digits; a stand-in for SHA-1 that gives \<open>password\<close> and
  \<open>hunter1129333\<close> their real digests, which share their first five characters, and
  every other input one with the same five characters; a transport that answers every
  request with one response; and environments around them.
\<close>

definition ascii_runtime :: runtime where
  "ascii_runtime =
     \<lparr>uc_isupper = (\<lambda>c. False), uc_islower = (\<lambda>c. False), uc_isdigit = (\<lambda>c. False),
      uc_isalnum = (\<lambda>c. False), int_other = (\<lambda>s. Inl ValueError)\<rparr>"

definition sample_digest :: "nat list \<Rightarrow> pystr" where
  "sample_digest bytes =
     of_ascii (if bytes = of_ascii ''password''
               then ''5baa61e4c9b93f3f0682250b6cf8331b7ee68fd8''
               else if bytes = of_ascii ''hunter1129333''
               then ''5baa61b7a41b816362383e113450d88e39493a58''
               else ''5baa6fffffffffffffffffffffffffffffffffff'')"

definition serve :: "int \<Rightarrow> pystr \<Rightarrow> pystr \<Rightarrow> py_error + response" where
  "serve status body url = Inr \<lparr>status_code = status, body_text = body\<rparr>"

definition example_env ::
  "(pystr \<Rightarrow> fs_entry) \<Rightarrow> py_error + bool \<Rightarrow> (pystr \<Rightarrow> py_error + response) \<Rightarrow> env" where
  "example_env fs ensure get =
     \<lparr>env_rt = ascii_runtime, env_zxcvbn = None, env_fs = fs, env_ensure_requests = ensure,
      env_get = get, env_sha1 = sample_digest\<rparr>"

definition fresh_world :: world where
  "fresh_world = \<lparr>requests_loaded = False, sent = []\<rparr>"

text \<open>
  A response body in the format of the service, with the suffix of \<open>password\<close> on its
  second line, and one that starts with a line that is not a pair.
\<close>

definition sample_body :: pystr where
  "sample_body =
     of_ascii ''1D72CD07550416C216D8AD296BF5C0AE8E0:10'' @ [13, 10]
     @ of_ascii ''1E4C9B93F3F0682250B6CF8331B7EE68FD8:3730471'' @ [13, 10]
     @ of_ascii ''1F2B668E8AABEF1C59E9EC6F82E3F3CD786:1''"

definition malformed_body :: pystr where
  "malformed_body =
     of_ascii ''<html>'' @ [10] @ of_ascii ''1E4C9B93F3F0682250B6CF8331B7EE68FD8:3730471''"



definition wordlist_fs :: "pystr \<Rightarrow> fs_entry" where
  "wordlist_fs path =
     (if path = of_ascii ''common.txt''
      then Lines [of_ascii ''123456'' @ [10], of_ascii ''qwerty'' @ [10]]
      else if path = of_ascii ''locked.txt'' then Unreadable
      else NotAFile)"

section \<open>Properties of the core computations\<close>

lemma dict_get_set: "dict_get (dict_set fr k v) k' d = (if k' = k then v else dict_get fr k' d)"
  by (induction fr) auto

lemma keys_dict_set: "fst ` set (dict_set fr k v) = insert k (fst ` set fr)"
  by (induction fr k v rule: dict_set.induct) auto

lemma map_fst_dict_set:
  "map fst (dict_set fr k v) = (if k \<in> fst ` set fr then map fst fr else map fst fr @ [k])"
  by (induction fr k v rule: dict_set.induct) (force simp: image_iff)+

lemma distinct_dict_set: "distinct (map fst fr) \<Longrightarrow> distinct (map fst (dict_set fr k v))"
  by (simp add: map_fst_dict_set)

lemma dict_get_count_chars:
  "dict_get (count_chars fr s) c 0 = dict_get fr c 0 + int (count_list s c)"
  by (induction s arbitrary: fr) (auto simp: dict_get_set)

lemma keys_count_chars: "fst ` set (count_chars fr s) = fst ` set fr \<union> set s"
  by (induction s arbitrary: fr) (auto simp: keys_dict_set)

lemma distinct_count_chars:
  "distinct (map fst fr) \<Longrightarrow> distinct (map fst (count_chars fr s))"
  by (induction s arbitrary: fr) (auto simp: distinct_dict_set)

lemma dict_get_mem: "distinct (map fst fr) \<Longrightarrow> (k, v) \<in> set fr \<Longrightarrow> dict_get fr k d = v"
  by (induction fr) (auto simp: image_iff)

lemma sum_values_keys:
  "distinct (map fst fr) \<Longrightarrow>
   sum_list (map g (dict_values fr)) = (\<Sum>k \<in> fst ` set fr. g (dict_get fr k 0))"
proof (induction fr)
  case Nil
  then show ?case by (simp add: dict_values_def)
next
  case (Cons kv fr)
  obtain k v where kv: "kv = (k, v)" by (cases kv)
  from Cons.prems kv have nk: "k \<notin> fst ` set fr" and d: "distinct (map fst fr)" by auto
  have "(\<Sum>k' \<in> fst ` set fr. g (dict_get ((k, v) # fr) k' 0))
        = (\<Sum>k' \<in> fst ` set fr. g (dict_get fr k' 0))"
    using nk by (intro sum.cong) auto
  with Cons.IH [OF d] nk show ?case
    by (simp add: kv dict_values_def)
qed

lemma entropy_loop_sum:
  "0 < len \<Longrightarrow> \<forall>c \<in> set counts. 0 < c \<Longrightarrow>
   entropy_loop e len counts =
     Inr (e - sum_list (map (\<lambda>c. (of_int c / of_int len) * log 2 (of_int c / of_int len)) counts))"
proof (induction counts arbitrary: e)
  case Nil
  then show ?case by simp
next
  case (Cons c counts)
  have pos: "\<not> (of_int c / of_int len :: real) \<le> 0" using Cons.prems by (simp add: not_le)
  have ne: "len \<noteq> 0" using Cons.prems by simp
  have rest: "\<forall>c \<in> set counts. 0 < c" using Cons.prems by simp
  show ?case
    unfolding entropy_loop.simps true_div_def math_log2_def
    using pos ne Cons.IH [OF Cons.prems(1) rest] by (simp add: algebra_simps)
qed

lemma values_count_chars:
  assumes "v \<in> set (dict_values (count_chars [] s))"
  shows "0 < v"
proof -
  let ?fr = "count_chars [] s"
  from assms obtain k where kv: "(k, v) \<in> set ?fr"
    by (auto simp: dict_values_def)
  have d: "distinct (map fst ?fr)" by (simp add: distinct_count_chars)
  have "k \<in> fst ` set ?fr" using kv by force
  then have ks: "k \<in> set s" by (simp add: keys_count_chars)
  have "v = dict_get ?fr k 0" using dict_get_mem [OF d kv] by simp
  then have "v = int (count_list s k)" by (simp add: dict_get_count_chars)
  moreover have "0 < count_list s k" using ks count_list_0_iff [of s k] by simp
  ultimately show ?thesis by simp
qed

lemma shannon_entropy_eq:
  "shannon_entropy s = Inr (empirical_entropy s * real (length s))"
proof (cases "s = []")
  case True
  then show ?thesis by (simp add: shannon_entropy_def empirical_entropy_def)
next
  case False
  let ?fr = "count_chars [] s"
  let ?len = "int (length s)"
  let ?g = "\<lambda>c::int. (of_int c / of_int ?len) * log 2 (of_int c / of_int ?len)"
  have len: "0 < ?len" using False by simp
  have pos: "\<forall>c \<in> set (dict_values ?fr). 0 < c" using values_count_chars by blast
  have d: "distinct (map fst ?fr)" by (simp add: distinct_count_chars)
  have "sum_list (map ?g (dict_values ?fr)) = (\<Sum>k \<in> fst ` set ?fr. ?g (dict_get ?fr k 0))"
    by (rule sum_values_keys [OF d])
  also have "\<dots> = (\<Sum>k \<in> set s. char_prob s k * log 2 (char_prob s k))"
    by (simp add: keys_count_chars dict_get_count_chars char_prob_def)
  finally have "entropy_loop 0 ?len (dict_values ?fr) = Inr (empirical_entropy s)"
    by (simp add: entropy_loop_sum [OF len pos] empirical_entropy_def)
  then show ?thesis using False by (simp add: shannon_entropy_def Let_def)
qed

lemma empirical_entropy_nonneg: "0 \<le> empirical_entropy s"
proof -
  have "char_prob s c * log 2 (char_prob s c) \<le> 0" if "c \<in> set s" for c
  proof -
    have n: "0 < length s" using that by (cases s) auto
    have "0 < count_list s c" using that count_list_0_iff [of s c] by simp
    then have p0: "0 < char_prob s c" using n by (simp add: char_prob_def)
    have "real (count_list s c) \<le> real (length s)" using count_le_length [of s c] by simp
    then have p1: "char_prob s c \<le> 1" using n by (simp add: char_prob_def)
    have "log 2 (char_prob s c) \<le> 0" using p0 p1 by simp
    then show ?thesis using p0 by (simp add: mult_nonneg_nonpos)
  qed
  then have "(\<Sum>c \<in> set s. char_prob s c * log 2 (char_prob s c)) \<le> 0"
    by (rule sum_nonpos)
  then show ?thesis by (simp add: empirical_entropy_def)
qed

lemma score_steps_sum:
  "score_steps len classes entropy =
     of_bool (8 \<le> len) + of_bool (12 \<le> len) + of_bool (2 \<le> classes)
       + of_bool (3 \<le> classes \<and> 40 \<le> entropy)"
  by (simp add: score_steps_def)

lemma score_steps_range: "0 \<le> score_steps len classes entropy \<and> score_steps len classes entropy \<le> 4"
  by (simp add: score_steps_def)

lemma label_lookup_range:
  "0 \<le> k \<Longrightarrow> k \<le> 4 \<Longrightarrow>
   label_lookup k = Inr (of_ascii
     (if k = 0 then ''Very weak'' else if k = 1 then ''Weak'' else if k = 2 then ''Moderate''
      else if k = 3 then ''Strong'' else ''Very strong''))"
proof -
  assume "0 \<le> k" "k \<le> 4"
  then consider "k = 0" | "k = 1" | "k = 2" | "k = 3" | "k = 4" by linarith
  then show ?thesis
    by cases (simp_all add: label_lookup_def label_table_def)
qed

lemma simple_score_eq:
  "\<exists>entropy score label.
     shannon_entropy password = Inr entropy
     \<and> simple_score rt password = Inr (score, label)
     \<and> score = of_bool (8 \<le> length password) + of_bool (12 \<le> length password)
               + of_bool (2 \<le> sum_flags (char_classes rt password))
               + of_bool (3 \<le> sum_flags (char_classes rt password) \<and> 40 \<le> entropy)
     \<and> 0 \<le> score \<and> score \<le> 4 \<and> min score 4 = score
     \<and> label = of_ascii
          (if score = 0 then ''Very weak'' else if score = 1 then ''Weak''
           else if score = 2 then ''Moderate'' else if score = 3 then ''Strong''
           else ''Very strong'')"
proof -
  let ?e = "empirical_entropy password * real (length password)"
  let ?sc = "score_steps (int (length password)) (sum_flags (char_classes rt password)) ?e"
  have r: "0 \<le> ?sc" "?sc \<le> 4" using score_steps_range by blast+
  then have m: "min ?sc 4 = ?sc" by simp
  have ll: "label_lookup (min ?sc 4) = Inr (of_ascii
          (if ?sc = 0 then ''Very weak'' else if ?sc = 1 then ''Weak''
           else if ?sc = 2 then ''Moderate'' else if ?sc = 3 then ''Strong''
           else ''Very strong''))"
    using label_lookup_range [OF r] by (simp only: m)
  have "simple_score rt password = Inr (?sc, of_ascii
          (if ?sc = 0 then ''Very weak'' else if ?sc = 1 then ''Weak''
           else if ?sc = 2 then ''Moderate'' else if ?sc = 3 then ''Strong''
           else ''Very strong''))"
    by (simp only: simple_score_def Let_def shannon_entropy_eq sum.case ll)
  moreover have "?sc = of_bool (8 \<le> length password) + of_bool (12 \<le> length password)
               + of_bool (2 \<le> sum_flags (char_classes rt password))
               + of_bool (3 \<le> sum_flags (char_classes rt password) \<and> 40 \<le> ?e)"
    by (simp add: score_steps_sum)
  ultimately show ?thesis using shannon_entropy_eq r m by blast
qed

lemma sum_flags_count:
  "sum_flags (u, l, d, s) = int (length (filter id [u, l, d, s]))"
  by (simp add: sum_flags_def)

lemma char_classes_flags:
  "char_classes rt password =
     (\<exists>c \<in> set password. isupper rt c, \<exists>c \<in> set password. islower rt c,
      \<exists>c \<in> set password. isdigit rt c, \<exists>c \<in> set password. \<not> isalnum rt c)"
  by (simp add: char_classes_def any_char_def list_ex_iff)

lemma entropy_Ab3: "shannon_entropy (of_ascii ''Ab3!'') = Inr 8"
proof -
  have s: "of_ascii ''Ab3!'' = [65, 98, 51, 33]" by (simp add: of_ascii_def)
  have l: "log 2 (1 / 4 :: real) = - 2"
  proof -
    have "log 2 ((2::real) ^ 2) = real 2 * log 2 2" by (rule log_nat_power) simp
    then have "log 2 (4::real) = 2" by simp
    then show ?thesis by (simp add: log_divide)
  qed
  have "empirical_entropy [65, 98, 51, 33] = 2"
    by (simp add: empirical_entropy_def char_prob_def l)
  then show ?thesis unfolding s shannon_entropy_eq by simp
qed

text \<open>
  Claim C1. For every password, \<open>simple_score\<close> returns a score and a label. With the four
  class flags of the password (some character is upper case, lower case, a digit, not
  alphanumeric), \<open>classes\<close> the number of flags that are true, and \<open>entropy\<close> the entropy
  estimate (the empirical Shannon entropy times the length), the score is the number of
  the four thresholds that hold: length at least 8, length at least 12, \<open>classes\<close> at
  least 2, \<open>classes\<close> at least 3 together with \<open>entropy\<close> at least 40. The score lies
  between 0 and 4, so the clamp \<open>min score 4\<close> leaves it unchanged, and the label is the
  entry of the fixed table for that score.
\<close>

theorem simple_score_additive_rule:
  "\<exists>has_upper has_lower has_digit has_special classes entropy score label.
     has_upper = (\<exists>c \<in> set password. isupper rt c)
     \<and> has_lower = (\<exists>c \<in> set password. islower rt c)
     \<and> has_digit = (\<exists>c \<in> set password. isdigit rt c)
     \<and> has_special = (\<exists>c \<in> set password. \<not> isalnum rt c)
     \<and> char_classes rt password = (has_upper, has_lower, has_digit, has_special)
     \<and> classes = length (filter id [has_upper, has_lower, has_digit, has_special])
     \<and> entropy = empirical_entropy password * real (length password)
     \<and> shannon_entropy password = Inr entropy
     \<and> simple_score rt password = Inr (score, label)
     \<and> score = of_bool (8 \<le> length password) + of_bool (12 \<le> length password)
               + of_bool (2 \<le> classes) + of_bool (3 \<le> classes \<and> 40 \<le> entropy)
     \<and> 0 \<le> score \<and> score \<le> 4 \<and> min score 4 = score
     \<and> label = of_ascii
          (if score = 0 then ''Very weak'' else if score = 1 then ''Weak''
           else if score = 2 then ''Moderate'' else if score = 3 then ''Strong''
           else ''Very strong'')"
proof -
  obtain entropy score label where
    e: "shannon_entropy password = Inr entropy" and
    s: "simple_score rt password = Inr (score, label)" and
    sc: "score = of_bool (8 \<le> length password) + of_bool (12 \<le> length password)
               + of_bool (2 \<le> sum_flags (char_classes rt password))
               + of_bool (3 \<le> sum_flags (char_classes rt password) \<and> 40 \<le> entropy)" and
    r: "0 \<le> score" "score \<le> 4" "min score 4 = score" and
    lb: "label = of_ascii
          (if score = 0 then ''Very weak'' else if score = 1 then ''Weak''
           else if score = 2 then ''Moderate'' else if score = 3 then ''Strong''
           else ''Very strong'')"
    using simple_score_eq [of password rt] by blast
  have ev: "entropy = empirical_entropy password * real (length password)"
    using e by (simp add: shannon_entropy_eq)
  let ?u = "\<exists>c \<in> set password. isupper rt c"
  let ?l = "\<exists>c \<in> set password. islower rt c"
  let ?d = "\<exists>c \<in> set password. isdigit rt c"
  let ?s = "\<exists>c \<in> set password. \<not> isalnum rt c"
  have cc: "char_classes rt password = (?u, ?l, ?d, ?s)" by (rule char_classes_flags)
  have sf: "sum_flags (char_classes rt password) = int (length (filter id [?u, ?l, ?d, ?s]))"
    unfolding cc by (rule sum_flags_count)
  have sc': "score = of_bool (8 \<le> length password) + of_bool (12 \<le> length password)
               + of_bool (2 \<le> length (filter id [?u, ?l, ?d, ?s]))
               + of_bool (3 \<le> length (filter id [?u, ?l, ?d, ?s]) \<and> 40 \<le> entropy)"
    using sc unfolding sf by simp
  show ?thesis
    using cc ev e s sc' r lb by blast
qed

theorem simple_score_additive_rule_witness:
  "simple_score ascii_runtime (of_ascii ''Ab3!'') = Inr (1, of_ascii ''Weak'')"
proof -
  let ?pw = "of_ascii ''Ab3!''"
  from simple_score_additive_rule [of ?pw ascii_runtime]
  obtain u l d s classes entropy score label where
    u: "u = (\<exists>c \<in> set ?pw. isupper ascii_runtime c)" and l: "l = (\<exists>c \<in> set ?pw. islower ascii_runtime c)" and
    d: "d = (\<exists>c \<in> set ?pw. isdigit ascii_runtime c)" and s: "s = (\<exists>c \<in> set ?pw. \<not> isalnum ascii_runtime c)" and
    c: "classes = length (filter id [u, l, d, s])" and
    e: "shannon_entropy ?pw = Inr entropy" and
    r: "simple_score ascii_runtime ?pw = Inr (score, label)" and
    sc: "score = of_bool (8 \<le> length ?pw) + of_bool (12 \<le> length ?pw)
               + of_bool (2 \<le> classes) + of_bool (3 \<le> classes \<and> 40 \<le> entropy)" and
    lb: "label = of_ascii
          (if score = 0 then ''Very weak'' else if score = 1 then ''Weak''
           else if score = 2 then ''Moderate'' else if score = 3 then ''Strong''
           else ''Very strong'')"
    by blast
  have "u" "l" "d" "s"
    by (simp_all add: u l d s of_ascii_def isupper_def islower_def isdigit_def isalnum_def)
  then have c4: "classes = 4" by (simp add: c)
  have ev: "entropy = 8" using e entropy_Ab3 by simp
  have "score = 1" unfolding sc c4 ev by (simp add: of_ascii_def)
  then show ?thesis using r lb by simp
qed

text \<open>
  Claim C2. For every password \<open>s\<close>, \<open>shannon_entropy\<close> returns the Shannon entropy of the
  empirical character distribution of \<open>s\<close> (in bits per character) multiplied by the
  length of \<open>s\<close>; on the empty string it returns exactly 0; and the value it returns is
  never negative.
\<close>

theorem shannon_entropy_spec:
  "shannon_entropy s = Inr (empirical_entropy s * real (length s))
   \<and> shannon_entropy [] = Inr 0
   \<and> (\<exists>e. shannon_entropy s = Inr e \<and> 0 \<le> e)"
  using shannon_entropy_eq [of s] empirical_entropy_nonneg [of s]
  by (simp add: shannon_entropy_def)

text \<open>
  Claim C8. For every string, whatever the Unicode tables say beyond ASCII, the entropy
  estimate and the composite score return a value and raise nothing (the classifier has
  no failing operation at all); the classifier gives four false flags on the empty
  string, and all four flags, hence a class count of 4, on \<open>Ab3!\<close>.
\<close>

theorem core_total:
  "(\<exists>e. shannon_entropy s = Inr e)
   \<and> (\<exists>score label. simple_score rt s = Inr (score, label))
   \<and> char_classes rt [] = (False, False, False, False)
   \<and> sum_flags (char_classes rt []) = 0
   \<and> char_classes rt (of_ascii ''Ab3!'') = (True, True, True, True)
   \<and> sum_flags (char_classes rt (of_ascii ''Ab3!'')) = 4"
proof -
  have 1: "\<exists>e. shannon_entropy s = Inr e" by (simp add: shannon_entropy_eq)
  have 2: "\<exists>score label. simple_score rt s = Inr (score, label)"
    using simple_score_eq [of s rt] by blast
  have 3: "char_classes rt [] = (False, False, False, False)"
    by (simp add: char_classes_def any_char_def)
  have 4: "char_classes rt (of_ascii ''Ab3!'') = (True, True, True, True)"
    by (simp add: char_classes_def any_char_def of_ascii_def isupper_def islower_def
        isdigit_def isalnum_def)
  show ?thesis using 1 2 by (simp add: 3 4 sum_flags_def)
qed

text \<open>
  Claim C9. With the class flags and the entropy estimate fixed, the sum of the threshold
  tests does not decrease when the length grows: for lengths \<open>a \<le> b\<close> the score at
  \<open>a\<close> is at most the score at \<open>b\<close>.
\<close>

theorem score_monotone_in_length:
  "a \<le> b \<Longrightarrow>
   score_steps a (sum_flags flags) entropy \<le> score_steps b (sum_flags flags) entropy"
  by (simp add: score_steps_def)

theorem score_monotone_in_length_witness:
  "(7::int) \<le> 12
   \<and> score_steps 7 (sum_flags (True, True, True, False)) 50
       \<le> score_steps 12 (sum_flags (True, True, True, False)) 50
   \<and> score_steps 7 (sum_flags (True, True, True, False)) 50 = 2
   \<and> score_steps 12 (sum_flags (True, True, True, False)) 50 = 4"
  using score_monotone_in_length [of 7 12 "(True, True, True, False)" 50]
  by (simp add: score_steps_def sum_flags_def)

section \<open>Properties of the wordlist matcher\<close>

lemma scan_lines_iff:
  "scan_lines ps ls \<longleftrightarrow> (\<exists>line \<in> set ls. rstrip [13, 10] line = ps)"
  by (induction ls) auto

text \<open>
  Claim C4, as the code has it. \<open>check_local_wordlist\<close> has three outcomes, decided by what
  is at the path. A path that is not a regular file raises \<open>FileNotFoundError\<close> and no
  verdict is returned. A regular file that can be opened gives \<open>True\<close> exactly when some
  line, its trailing CR and LF characters dropped, equals the password with its trailing
  LF characters dropped, and \<open>False\<close> otherwise. A regular file that \<open>open\<close> refuses raises
  \<open>PermissionError\<close>.
\<close>

theorem check_local_wordlist_outcomes:
  "check_local_wordlist fs password path =
     (case fs path of
        NotAFile \<Rightarrow> Inl (FileNotFoundError path)
      | Unreadable \<Rightarrow> Inl (PermissionError path)
      | Lines ls \<Rightarrow> Inr (\<exists>line \<in> set ls. rstrip [13, 10] line = rstrip [10] password))"
  by (simp add: check_local_wordlist_def scan_lines_iff split: fs_entry.splits)

theorem check_local_wordlist_outcomes_witness:
  "check_local_wordlist wordlist_fs (of_ascii ''qwerty'') (of_ascii ''common.txt'') = Inr True
   \<and> check_local_wordlist wordlist_fs (of_ascii ''qwerty'' @ [10]) (of_ascii ''common.txt'') = Inr True
   \<and> check_local_wordlist wordlist_fs (of_ascii ''letmein'') (of_ascii ''common.txt'') = Inr False
   \<and> check_local_wordlist wordlist_fs (of_ascii ''qwerty'') (of_ascii ''absent.txt'')
       = Inl (FileNotFoundError (of_ascii ''absent.txt''))"
  using check_local_wordlist_outcomes [of wordlist_fs "of_ascii ''qwerty''" "of_ascii ''common.txt''"]
    check_local_wordlist_outcomes [of wordlist_fs "of_ascii ''qwerty'' @ [10]" "of_ascii ''common.txt''"]
    check_local_wordlist_outcomes [of wordlist_fs "of_ascii ''letmein''" "of_ascii ''common.txt''"]
    check_local_wordlist_outcomes [of wordlist_fs "of_ascii ''qwerty''" "of_ascii ''absent.txt''"]
  by (simp add: wordlist_fs_def of_ascii_def rstrip_def)

text \<open>
  Counterexample to claim C4 as the specification words it. For a wordlist that exists
  and cannot be read the exception is \<open>PermissionError\<close>, not \<open>FileNotFoundError\<close>.
\<close>

theorem unreadable_wordlist_counterexample:
  "wordlist_fs (of_ascii ''locked.txt'') = Unreadable
   \<and> check_local_wordlist wordlist_fs (of_ascii ''qwerty'') (of_ascii ''locked.txt'')
       = Inl (PermissionError (of_ascii ''locked.txt''))
   \<and> check_local_wordlist wordlist_fs (of_ascii ''qwerty'') (of_ascii ''locked.txt'')
       \<noteq> Inl (FileNotFoundError (of_ascii ''locked.txt''))"
  by (simp add: check_local_wordlist_def wordlist_fs_def of_ascii_def)

section \<open>Properties of the breach lookup client\<close>

lemma sent_load_requests: "sent (snd (load_requests env w)) = sent w"
  by (simp add: load_requests_def split: sum.splits)

lemma hibp_not_loaded:
  "fst (load_requests env w) \<noteq> Inr True \<Longrightarrow>
   hibp_pwned_count env w password =
     (case fst (load_requests env w) of Inl e \<Rightarrow> Inl e | Inr b \<Rightarrow> Inr (- 1),
      snd (load_requests env w))"
  by (cases "load_requests env w") (auto simp: hibp_pwned_count_def split: sum.splits bool.splits)

lemma hibp_not_encodable:
  "fst (load_requests env w) = Inr True \<Longrightarrow> encode_utf8 password = Inl e \<Longrightarrow>
   hibp_pwned_count env w password = (Inl e, snd (load_requests env w))"
  by (cases "load_requests env w") (auto simp: hibp_pwned_count_def)

lemma hibp_request:
  assumes "fst (load_requests env w) = Inr True" and "encode_utf8 password = Inr bytes"
  shows "hibp_pwned_count env w password =
     (case env_get env (range_url (take 5 (upper (env_sha1 env bytes)))) of
        Inl e \<Rightarrow> Inl e
      | Inr resp \<Rightarrow>
          if status_code resp \<noteq> 200
          then Inl (RuntimeError (of_ascii ''HIBP API error: '' @ str_int (status_code resp)))
          else scan_response (env_rt env) (drop 5 (upper (env_sha1 env bytes)))
                 (splitlines (body_text resp)),
      (snd (load_requests env w))
        \<lparr>sent := sent w @ [range_url (take 5 (upper (env_sha1 env bytes)))]\<rparr>)"
proof -
  obtain w1 where l: "load_requests env w = (Inr True, w1)"
    using assms(1) by (cases "load_requests env w") auto
  have s: "sent w1 = sent w" using sent_load_requests [of env w] l by simp
  show ?thesis
    by (simp add: hibp_pwned_count_def l assms(2) Let_def s split: sum.splits)
qed

lemma sent_hibp:
  "sent (snd (hibp_pwned_count env w password)) =
     (if fst (load_requests env w) = Inr True
      then (case hibp_prefix env password of
              None \<Rightarrow> sent w
            | Some prefix \<Rightarrow> sent w @ [range_url prefix])
      else sent w)"
proof (cases "fst (load_requests env w) = Inr True")
  case False
  then show ?thesis by (simp add: hibp_not_loaded sent_load_requests)
next
  case True
  show ?thesis
  proof (cases "encode_utf8 password")
    case (Inl e)
    then show ?thesis using True
      by (simp add: hibp_not_encodable hibp_prefix_def sent_load_requests)
  next
    case (Inr bytes)
    then show ?thesis using True
      by (simp add: hibp_request hibp_prefix_def)
  qed
qed

lemma scan_response_pass:
  "list_all (passes_over suffix) before \<Longrightarrow>
   scan_response rt suffix (before @ rest) = scan_response rt suffix rest"
  by (induction before) (auto simp: passes_over_def split: list.splits)

lemma scan_response_hit:
  "split_on 58 line = [suffix, count] \<Longrightarrow>
   scan_response rt suffix (line # after) = py_int rt count"
  by simp

lemma scan_response_none:
  "list_all (passes_over suffix) lines \<Longrightarrow> scan_response rt suffix lines = Inr 0"
  using scan_response_pass [of suffix lines rt "[]"] by simp

lemma decimal_value_nonneg: "0 \<le> int (decimal_value s)"
  by simp


lemma range_url_literal:
  "range_url prefix = of_ascii ''https://api.pwnedpasswords.com/range/'' @ prefix"
  by (simp add: range_url_def)


lemmas example_defs = example_env_def ascii_runtime_def sample_digest_def serve_def
  fresh_world_def sample_body_def malformed_body_def of_ascii_def

lemmas string_defs = splitlines_def is_linebreak_def upper_def encode_utf8_def is_surrogate_def
  utf8_char_def range_url_def str_int_def plain_digits_def is_ascii_digit_def decimal_value_def
  py_int_def

lemma ex_loaded:
  "fst (load_requests (example_env fs (Inr True) get) fresh_world) = Inr True"
  by (simp add: load_requests_def example_env_def fresh_world_def)

lemma ex_prefix_password:
  "hibp_prefix (example_env fs ensure get) (of_ascii ''password'') = Some (of_ascii ''5BAA6'')"
  by (simp add: hibp_prefix_def example_defs string_defs)

lemma ex_suffix_password:
  "hibp_suffix (example_env fs ensure get) (of_ascii ''password'')
     = of_ascii ''1E4C9B93F3F0682250B6CF8331B7EE68FD8''"
  by (simp add: hibp_suffix_def example_defs string_defs)

lemma ex_lines_sample:
  "splitlines sample_body =
     [of_ascii ''1D72CD07550416C216D8AD296BF5C0AE8E0:10''] @
     of_ascii ''1E4C9B93F3F0682250B6CF8331B7EE68FD8:3730471'' #
     [of_ascii ''1F2B668E8AABEF1C59E9EC6F82E3F3CD786:1'']"
  by (simp add: example_defs string_defs)

lemma ex_lines_malformed:
  "splitlines malformed_body =
     [of_ascii ''<html>'', of_ascii ''1E4C9B93F3F0682250B6CF8331B7EE68FD8:3730471'']"
  by (simp add: example_defs string_defs)

lemma ex_split_hit:
  "split_on 58 (of_ascii ''1E4C9B93F3F0682250B6CF8331B7EE68FD8:3730471'')
     = [of_ascii ''1E4C9B93F3F0682250B6CF8331B7EE68FD8'', of_ascii ''3730471'']"
  by (simp add: of_ascii_def)

lemma ex_count: "plain_digits (of_ascii ''3730471'') \<and> decimal_value (of_ascii ''3730471'') = 3730471"
  by (simp add: of_ascii_def string_defs)

lemma ex_status: "str_int 503 = of_ascii ''503''"
  by (simp add: of_ascii_def string_defs)


lemma ex_hibp_password:
  "hibp_pwned_count (example_env fs (Inr True) (serve status body)) fresh_world
     (of_ascii ''password'') =
     (if status \<noteq> 200
      then Inl (RuntimeError (of_ascii ''HIBP API error: '' @ str_int status))
      else scan_response ascii_runtime (of_ascii ''1E4C9B93F3F0682250B6CF8331B7EE68FD8'')
             (splitlines body),
      \<lparr>requests_loaded = True,
         sent = [of_ascii ''https://api.pwnedpasswords.com/range/5BAA6'']\<rparr>)"
proof -
  have enc: "encode_utf8 (of_ascii ''password'') = Inr (of_ascii ''password'')"
    by (simp add: of_ascii_def encode_utf8_def is_surrogate_def utf8_char_def)
  have dig: "upper (sample_digest (of_ascii ''password''))
               = of_ascii ''5BAA61E4C9B93F3F0682250B6CF8331B7EE68FD8''"
    by (simp add: sample_digest_def of_ascii_def upper_def)
  have tk: "take 5 (of_ascii ''5BAA61E4C9B93F3F0682250B6CF8331B7EE68FD8'') = of_ascii ''5BAA6''"
    and dr: "drop 5 (of_ascii ''5BAA61E4C9B93F3F0682250B6CF8331B7EE68FD8'')
               = of_ascii ''1E4C9B93F3F0682250B6CF8331B7EE68FD8''"
    by (simp_all add: of_ascii_def)
  have url: "range_url (of_ascii ''5BAA6'') = of_ascii ''https://api.pwnedpasswords.com/range/5BAA6''"
    by (simp add: range_url_def of_ascii_def)
  show ?thesis
    unfolding hibp_pwned_count_def load_requests_def example_env_def fresh_world_def
    by (simp add: enc dig tk dr url serve_def Let_def)
qed

lemma ex_encode_password: "encode_utf8 (of_ascii ''password'') = Inr (of_ascii ''password'')"
  by (simp add: of_ascii_def encode_utf8_def is_surrogate_def utf8_char_def)

lemma ex_encode_hunter:
  "encode_utf8 (of_ascii ''hunter1129333'') = Inr (of_ascii ''hunter1129333'')"
  by (simp add: of_ascii_def encode_utf8_def is_surrogate_def utf8_char_def)

lemma ex_digest_password:
  "upper (sample_digest (of_ascii ''password''))
     = of_ascii ''5BAA61E4C9B93F3F0682250B6CF8331B7EE68FD8''"
  by (simp add: sample_digest_def of_ascii_def upper_def)

lemma ex_digest_hunter:
  "upper (sample_digest (of_ascii ''hunter1129333''))
     = of_ascii ''5BAA61B7A41B816362383E113450D88E39493A58''"
  by (simp add: sample_digest_def of_ascii_def upper_def)


text \<open>
  Claim C3, as the code has it. When the \<open>requests\<close> module is available and the password
  can be encoded as UTF-8, the breach lookup issues exactly one request, and its URL is
  \<open>https://api.pwnedpasswords.com/range/\<close> followed by the first five characters of the
  upper-case SHA-1 digest of the encoded password; in every other case it issues no
  request. A digest of 40 characters is split into a prefix of five and a suffix of 35.
  Two passwords whose digests start with the same five characters make the client send
  exactly the same requests: neither the password nor the rest of the hash is part of
  what is sent.
\<close>

theorem hibp_sends_only_prefix:
  "sent (snd (hibp_pwned_count env w p)) =
     (if fst (load_requests env w) = Inr True then
        (case encode_utf8 p of
           Inl e \<Rightarrow> sent w
         | Inr bytes \<Rightarrow>
             sent w @ [of_ascii ''https://api.pwnedpasswords.com/range/''
                        @ take 5 (upper (env_sha1 env bytes))])
      else sent w)
   \<and> (\<forall>bytes. encode_utf8 p = Inr bytes \<and> length (env_sha1 env bytes) = 40 \<longrightarrow>
          length (take 5 (upper (env_sha1 env bytes))) = 5
          \<and> length (drop 5 (upper (env_sha1 env bytes))) = 35)
   \<and> (\<forall>bp bq. encode_utf8 p = Inr bp \<and> encode_utf8 q = Inr bq
          \<and> take 5 (upper (env_sha1 env bp)) = take 5 (upper (env_sha1 env bq)) \<longrightarrow>
          sent (snd (hibp_pwned_count env w p)) = sent (snd (hibp_pwned_count env w q)))"
proof -
  have s: "sent (snd (hibp_pwned_count env w x)) =
     (if fst (load_requests env w) = Inr True then
        (case encode_utf8 x of
           Inl e \<Rightarrow> sent w
         | Inr bytes \<Rightarrow>
             sent w @ [of_ascii ''https://api.pwnedpasswords.com/range/''
                        @ take 5 (upper (env_sha1 env bytes))])
      else sent w)" for x
    by (simp add: sent_hibp hibp_prefix_def range_url_literal split: sum.splits)
  have 2: "\<forall>bytes. encode_utf8 p = Inr bytes \<and> length (env_sha1 env bytes) = 40 \<longrightarrow>
          length (take 5 (upper (env_sha1 env bytes))) = 5
          \<and> length (drop 5 (upper (env_sha1 env bytes))) = 35"
    by (simp add: upper_def)
  have 3: "\<forall>bp bq. encode_utf8 p = Inr bp \<and> encode_utf8 q = Inr bq
          \<and> take 5 (upper (env_sha1 env bp)) = take 5 (upper (env_sha1 env bq)) \<longrightarrow>
          sent (snd (hibp_pwned_count env w p)) = sent (snd (hibp_pwned_count env w q))"
    by (auto simp: s)
  show ?thesis using s [of p] 2 3 by blast
qed

theorem hibp_sends_only_prefix_witness:
  "sent (snd (hibp_pwned_count (example_env wordlist_fs (Inr True) (serve 200 sample_body))
                fresh_world (of_ascii ''password'')))
     = [of_ascii ''https://api.pwnedpasswords.com/range/5BAA6'']
   \<and> sent (snd (hibp_pwned_count (example_env wordlist_fs (Inr True) (serve 200 sample_body))
                fresh_world (of_ascii ''hunter1129333'')))
     = [of_ascii ''https://api.pwnedpasswords.com/range/5BAA6'']
   \<and> upper (sample_digest (of_ascii ''password'')) \<noteq> upper (sample_digest (of_ascii ''hunter1129333''))
   \<and> length (sample_digest (of_ascii ''password'')) = 40"
proof -
  let ?E = "example_env wordlist_fs (Inr True) (serve 200 sample_body)"
  let ?p = "of_ascii ''password''"
  let ?q = "of_ascii ''hunter1129333''"
  have sha: "env_sha1 ?E = sample_digest" by (simp add: example_env_def)
  have tp: "take 5 (upper (env_sha1 ?E ?p)) = of_ascii ''5BAA6''"
    unfolding sha ex_digest_password by (simp add: of_ascii_def)
  have tq: "take 5 (upper (env_sha1 ?E ?q)) = of_ascii ''5BAA6''"
    unfolding sha ex_digest_hunter by (simp add: of_ascii_def)
  have h: "encode_utf8 ?p = Inr ?p \<and> encode_utf8 ?q = Inr ?q
           \<and> take 5 (upper (env_sha1 ?E ?p)) = take 5 (upper (env_sha1 ?E ?q))"
    by (simp add: ex_encode_password ex_encode_hunter tp tq)
  have same: "sent (snd (hibp_pwned_count ?E fresh_world ?p))
                = sent (snd (hibp_pwned_count ?E fresh_world ?q))"
    using hibp_sends_only_prefix [of ?E fresh_world ?p ?q] h by blast
  have "sent (snd (hibp_pwned_count ?E fresh_world ?p))
          = sent fresh_world @ [of_ascii ''https://api.pwnedpasswords.com/range/''
                                 @ take 5 (upper (env_sha1 ?E ?p))]"
    using hibp_sends_only_prefix [of ?E fresh_world ?p ?q]
    by (simp add: ex_loaded ex_encode_password)
  then have sp: "sent (snd (hibp_pwned_count ?E fresh_world ?p))
          = [of_ascii ''https://api.pwnedpasswords.com/range/5BAA6'']"
    unfolding tp by (simp add: fresh_world_def of_ascii_def)
  have ne: "upper (sample_digest ?p) \<noteq> upper (sample_digest ?q)"
    unfolding ex_digest_password ex_digest_hunter by (simp add: of_ascii_def)
  have len: "length (sample_digest ?p) = 40"
    by (simp add: sample_digest_def of_ascii_def)
  show ?thesis using sp same ne len by simp
qed

text \<open>
  Counterexample to claim C3 as the specification words it. Not every password leads to a
  digest and a request: a password with a lone surrogate (the character that a byte
  \<open>0xFF\<close> on the command line becomes) raises \<open>UnicodeEncodeError\<close> before anything is
  hashed or sent, and without the \<open>requests\<close> module the client returns before hashing.
\<close>

theorem no_request_counterexample:
  "hibp_pwned_count (example_env wordlist_fs (Inr True) (serve 200 sample_body)) fresh_world [56575]
     = (Inl UnicodeEncodeError, \<lparr>requests_loaded = True, sent = []\<rparr>)
   \<and> hibp_pwned_count (example_env wordlist_fs (Inr False) (serve 200 sample_body)) fresh_world
        (of_ascii ''password'')
     = (Inr (- 1), \<lparr>requests_loaded = False, sent = []\<rparr>)"
  by (simp add: hibp_pwned_count_def load_requests_def example_env_def fresh_world_def
      encode_utf8_def is_surrogate_def)

text \<open>
  Claim C5, as the code has it. Let the \<open>requests\<close> module be available, the password be
  encodable as UTF-8, and the transport answer the range request with a response. A
  status other than 200 raises \<open>RuntimeError\<close> with the text \<open>HIBP API error:\<close> and the
  status code. With status 200, when every line before the first line whose suffix is
  the password's unpacks into two parts, the client returns \<open>int\<close> of that line's count
  field, which is its decimal value when the field is a plain run of digits. With status
  200, when every line unpacks into two parts and none has the password's suffix, the
  client returns 0.
\<close>

theorem hibp_result_from_response:
  assumes "fst (load_requests env w) = Inr True"
      and "hibp_prefix env password = Some prefix"
      and "env_get env (range_url prefix) = Inr resp"
  shows "(status_code resp \<noteq> 200 \<longrightarrow>
            fst (hibp_pwned_count env w password)
              = Inl (RuntimeError (of_ascii ''HIBP API error: '' @ str_int (status_code resp))))
     \<and> (status_code resp = 200
          \<and> splitlines (body_text resp) = before @ line # after
          \<and> list_all (passes_over (hibp_suffix env password)) before
          \<and> split_on 58 line = [hibp_suffix env password, count] \<longrightarrow>
            fst (hibp_pwned_count env w password) = py_int (env_rt env) count
            \<and> (plain_digits count \<longrightarrow>
                 fst (hibp_pwned_count env w password) = Inr (int (decimal_value count))))
     \<and> (status_code resp = 200
          \<and> list_all (passes_over (hibp_suffix env password)) (splitlines (body_text resp)) \<longrightarrow>
            fst (hibp_pwned_count env w password) = Inr 0)"
proof -
  from assms(2) obtain bytes where
    enc: "encode_utf8 password = Inr bytes" and
    pre: "prefix = take 5 (upper (env_sha1 env bytes))"
    by (auto simp: hibp_prefix_def split: sum.splits)
  have suf: "hibp_suffix env password = drop 5 (upper (env_sha1 env bytes))"
    by (simp add: hibp_suffix_def enc)
  have r: "fst (hibp_pwned_count env w password) =
     (if status_code resp \<noteq> 200
      then Inl (RuntimeError (of_ascii ''HIBP API error: '' @ str_int (status_code resp)))
      else scan_response (env_rt env) (hibp_suffix env password) (splitlines (body_text resp)))"
    using assms(3) by (simp add: hibp_request [OF assms(1) enc] pre [symmetric] suf)
  show ?thesis
    by (auto simp: r scan_response_pass scan_response_none py_int_def)
qed

theorem hibp_result_from_response_witness:
  "fst (hibp_pwned_count (example_env wordlist_fs (Inr True) (serve 200 sample_body)) fresh_world
          (of_ascii ''password'')) = Inr 3730471
   \<and> fst (hibp_pwned_count (example_env wordlist_fs (Inr True) (serve 200 [])) fresh_world
          (of_ascii ''password'')) = Inr 0
   \<and> fst (hibp_pwned_count (example_env wordlist_fs (Inr True) (serve 503 [])) fresh_world
          (of_ascii ''password'')) = Inl (RuntimeError (of_ascii ''HIBP API error: 503''))"
proof -
  let ?pw = "of_ascii ''password''"
  let ?suffix = "of_ascii ''1E4C9B93F3F0682250B6CF8331B7EE68FD8''"
  let ?hit = "of_ascii ''1E4C9B93F3F0682250B6CF8331B7EE68FD8:3730471''"
  have l: "fst (load_requests (example_env wordlist_fs (Inr True) get) fresh_world) = Inr True"
    for get by (rule ex_loaded)
  have p: "hibp_prefix (example_env wordlist_fs (Inr True) get) ?pw = Some (of_ascii ''5BAA6'')"
    for get by (rule ex_prefix_password)
  have g: "env_get (example_env wordlist_fs (Inr True) (serve status body))
             (range_url (of_ascii ''5BAA6'')) = Inr \<lparr>status_code = status, body_text = body\<rparr>"
    for status body by (simp add: example_env_def serve_def)
  have before: "list_all (passes_over ?suffix) [of_ascii ''1D72CD07550416C216D8AD296BF5C0AE8E0:10'']"
    by (simp add: passes_over_def of_ascii_def)
  let ?E = "example_env wordlist_fs (Inr True) (serve 200 sample_body)"
  let ?resp = "\<lparr>status_code = 200, body_text = sample_body\<rparr>"
  have hyp: "status_code ?resp = 200
     \<and> splitlines (body_text ?resp) = [of_ascii ''1D72CD07550416C216D8AD296BF5C0AE8E0:10'']
           @ ?hit # [of_ascii ''1F2B668E8AABEF1C59E9EC6F82E3F3CD786:1'']
     \<and> list_all (passes_over (hibp_suffix ?E ?pw)) [of_ascii ''1D72CD07550416C216D8AD296BF5C0AE8E0:10'']
     \<and> split_on 58 ?hit = [hibp_suffix ?E ?pw, of_ascii ''3730471'']"
    using before by (simp add: ex_lines_sample ex_split_hit ex_suffix_password)
  have "fst (hibp_pwned_count ?E fresh_world ?pw) = Inr (int (decimal_value (of_ascii ''3730471'')))"
    using hibp_result_from_response [OF l p g, of 200 sample_body
        "[of_ascii ''1D72CD07550416C216D8AD296BF5C0AE8E0:10'']" ?hit
        "[of_ascii ''1F2B668E8AABEF1C59E9EC6F82E3F3CD786:1'']" "of_ascii ''3730471''"]
      hyp ex_count by blast
  then have 1: "fst (hibp_pwned_count ?E fresh_world ?pw) = Inr 3730471"
    using ex_count by simp
  have 2: "fst (hibp_pwned_count (example_env wordlist_fs (Inr True) (serve 200 [])) fresh_world
             ?pw) = Inr 0"
    using hibp_result_from_response [OF l p g, of 200 "[]"]
    by (simp add: splitlines_def)
  have 3: "fst (hibp_pwned_count (example_env wordlist_fs (Inr True) (serve 503 [])) fresh_world
             ?pw) = Inl (RuntimeError (of_ascii ''HIBP API error: 503''))"
    using hibp_result_from_response [OF l p g, of 503 "[]"] ex_status
    by (simp add: of_ascii_def)
  show ?thesis using 1 2 3 by blast
qed

text \<open>
  Counterexample to claim C5 as the specification words it. For a response with status
  200 whose body holds a line that is not a pair, the unpacking raises \<open>ValueError\<close>, whether a later line has the password's
  suffix (the claim promises its count) or no line has it (the claim promises 0).
\<close>

theorem malformed_line_counterexample:
  "status_code \<lparr>status_code = 200, body_text = malformed_body\<rparr> = 200
   \<and> splitlines malformed_body
       = [of_ascii ''<html>'', of_ascii ''1E4C9B93F3F0682250B6CF8331B7EE68FD8:3730471'']
   \<and> hibp_suffix (example_env wordlist_fs (Inr True) (serve 200 malformed_body))
        (of_ascii ''password'') = of_ascii ''1E4C9B93F3F0682250B6CF8331B7EE68FD8''
   \<and> fst (hibp_pwned_count (example_env wordlist_fs (Inr True) (serve 200 malformed_body))
            fresh_world (of_ascii ''password'')) = Inl ValueError
   \<and> splitlines (of_ascii ''<html>'') = [of_ascii ''<html>'']
   \<and> fst (hibp_pwned_count (example_env wordlist_fs (Inr True) (serve 200 (of_ascii ''<html>'')))
            fresh_world (of_ascii ''password'')) = Inl ValueError"
proof -
  have 1: "scan_response ascii_runtime (of_ascii ''1E4C9B93F3F0682250B6CF8331B7EE68FD8'')
          (splitlines malformed_body) = Inl ValueError"
    by (simp add: ex_lines_malformed) (simp add: of_ascii_def)
  have l: "splitlines (of_ascii ''<html>'') = [of_ascii ''<html>'']"
    by (simp add: of_ascii_def string_defs)
  have 2: "scan_response ascii_runtime (of_ascii ''1E4C9B93F3F0682250B6CF8331B7EE68FD8'')
          (splitlines (of_ascii ''<html>'')) = Inl ValueError"
    by (simp add: l) (simp add: of_ascii_def)
  show ?thesis
    using 1 2 l by (simp add: ex_hibp_password ex_lines_malformed ex_suffix_password)
qed




section \<open>Properties of the analysis orchestrator\<close>

lemma core_fields_value:
  "\<exists>entropy score label.
     shannon_entropy password = Inr entropy
     \<and> simple_score rt password = Inr (score, label)
     \<and> score = score_steps (int (length password)) (sum_flags (char_classes rt password)) entropy
     \<and> core_fields rt password = Inr
         [''password_length'' \<mapsto> VInt (int (length password)),
          ''has_upper'' \<mapsto> VBool (fst (char_classes rt password)),
          ''has_lower'' \<mapsto> VBool (fst (snd (char_classes rt password))),
          ''has_digit'' \<mapsto> VBool (fst (snd (snd (char_classes rt password)))),
          ''has_special'' \<mapsto> VBool (snd (snd (snd (char_classes rt password)))),
          ''entropy_bits'' \<mapsto> VFloat (round2 entropy),
          ''simple_score'' \<mapsto> VInt score,
          ''label'' \<mapsto> VStr label]"
proof -
  obtain entropy score label where
    e: "shannon_entropy password = Inr entropy" and
    s: "simple_score rt password = Inr (score, label)"
    using simple_score_eq [of password rt] by blast
  have sc: "score = score_steps (int (length password)) (sum_flags (char_classes rt password)) entropy"
    using s e by (auto simp: simple_score_def Let_def split: sum.splits)
  obtain a b c d where cc: "char_classes rt password = (a, b, c, d)"
    by (cases "char_classes rt password") auto
  have "core_fields rt password = Inr
         [''password_length'' \<mapsto> VInt (int (length password)),
          ''has_upper'' \<mapsto> VBool (fst (char_classes rt password)),
          ''has_lower'' \<mapsto> VBool (fst (snd (char_classes rt password))),
          ''has_digit'' \<mapsto> VBool (fst (snd (snd (char_classes rt password)))),
          ''has_special'' \<mapsto> VBool (snd (snd (snd (char_classes rt password)))),
          ''entropy_bits'' \<mapsto> VFloat (round2 entropy),
          ''simple_score'' \<mapsto> VInt score,
          ''label'' \<mapsto> VStr label]"
    by (simp add: core_fields_def e s cc)
  with e s sc show ?thesis by blast
qed

lemma zxcvbn_step_other:
  "k \<noteq> ''zxcvbn_score'' \<Longrightarrow> k \<noteq> ''zxcvbn_feedback'' \<Longrightarrow> zxcvbn_step env password out k = out k"
  by (simp add: zxcvbn_step_def Let_def split: option.splits sum.splits)

lemma wordlist_step_other:
  "wordlist_step env password wordlist out = Inr out' \<Longrightarrow>
   k \<noteq> ''found_in_wordlist'' \<Longrightarrow> k \<noteq> ''wordlist_error'' \<Longrightarrow> out' k = out k"
  by (auto simp: wordlist_step_def Let_def split: option.splits sum.splits if_splits py_error.splits)

lemma hibp_step_other:
  "k \<noteq> ''hibp_count'' \<Longrightarrow> k \<noteq> ''hibp_error'' \<Longrightarrow>
   fst (hibp_step env w password hibp out) k = out k"
  by (auto simp: hibp_step_def split: prod.splits sum.splits)

lemma verbose_step_other:
  "k \<noteq> ''complex'' \<Longrightarrow> verbose_step rt password verbose out k = out k"
  by (simp add: verbose_step_def)

lemma wordlist_step_cases:
  "wordlist_step env password wordlist out =
     (case wordlist of
        None \<Rightarrow> Inr out
      | Some path \<Rightarrow>
          if path = [] then Inr out
          else (case env_fs env path of
                  NotAFile \<Rightarrow> Inr (out(''found_in_wordlist'' \<mapsto> VNone,
                                     ''wordlist_error'' \<mapsto>
                                        VStr (of_ascii ''Wordlist not found: '' @ path)))
                | Unreadable \<Rightarrow> Inl (PermissionError path)
                | Lines ls \<Rightarrow> Inr (out(''found_in_wordlist'' \<mapsto>
                     VBool (\<exists>line \<in> set ls. rstrip [13, 10] line = rstrip [10] password)))))"
  by (simp add: wordlist_step_def check_local_wordlist_def scan_lines_iff Let_def
      split: option.splits fs_entry.splits)

lemma hibp_step_cases:
  "fst (hibp_step env w password hibp out) =
     (if hibp then
        (case fst (hibp_pwned_count env w password) of
           Inr n \<Rightarrow> out(''hibp_count'' \<mapsto> VInt n)
         | Inl e \<Rightarrow> out(''hibp_error'' \<mapsto> VStrOf e))
      else out)"
  by (auto simp: hibp_step_def split: prod.splits sum.splits)

lemma analyze_password_value:
  assumes "core_fields (env_rt env) password = Inr out0"
      and "wordlist_step env password wordlist (zxcvbn_step env password out0) = Inr out1"
  shows "analyze_password env w password wordlist hibp verbose =
           (Inr (verbose_step (env_rt env) password verbose
                  (fst (hibp_step env w password hibp out1))),
            snd (hibp_step env w password hibp out1))"
  by (simp add: analyze_password_def assms Let_def split: prod.splits)

lemma analyze_password_raises:
  assumes "core_fields (env_rt env) password = Inr out0"
      and "wordlist_step env password wordlist (zxcvbn_step env password out0) = Inl e"
  shows "analyze_password env w password wordlist hibp verbose = (Inl e, w)"
  by (simp add: analyze_password_def assms Let_def)

lemma wordlist_step_returns:
  assumes "\<forall>path. wordlist = Some path \<longrightarrow> env_fs env path \<noteq> Unreadable"
  shows "\<exists>out'. wordlist_step env password wordlist out = Inr out'"
  using assms by (auto simp: wordlist_step_cases split: option.splits fs_entry.splits)

lemma analyze_password_fields:
  assumes "analyze_password env w password wordlist hibp verbose = (Inr out, w')"
  shows "\<exists>entropy score label.
           shannon_entropy password = Inr entropy
           \<and> simple_score (env_rt env) password = Inr (score, label)
           \<and> score = score_steps (int (length password))
                        (sum_flags (char_classes (env_rt env) password)) entropy
           \<and> out ''entropy_bits'' = Some (VFloat (round2 entropy))
           \<and> out ''simple_score'' = Some (VInt score)"
proof -
  obtain entropy score label out0 where
    e: "shannon_entropy password = Inr entropy" and
    s: "simple_score (env_rt env) password = Inr (score, label)" and
    sc: "score = score_steps (int (length password))
                   (sum_flags (char_classes (env_rt env) password)) entropy" and
    c: "core_fields (env_rt env) password = Inr out0" and
    out0: "out0 ''entropy_bits'' = Some (VFloat (round2 entropy))"
          "out0 ''simple_score'' = Some (VInt score)"
    using core_fields_value [of password "env_rt env"] by fastforce
  let ?oz = "zxcvbn_step env password out0"
  obtain out1 where ws: "wordlist_step env password wordlist ?oz = Inr out1"
    using assms analyze_password_raises [OF c, of wordlist _ w hibp verbose]
    by (cases "wordlist_step env password wordlist ?oz") auto
  have out: "out = verbose_step (env_rt env) password verbose
                     (fst (hibp_step env w password hibp out1))"
    using assms analyze_password_value [OF c ws, of w hibp verbose] by simp
  have "out k = out0 k" if "k \<in> {''entropy_bits'', ''simple_score''}" for k
  proof -
    have "out k = fst (hibp_step env w password hibp out1) k"
      unfolding out using that by (intro verbose_step_other) auto
    also have "\<dots> = out1 k" using that by (intro hibp_step_other) auto
    also have "\<dots> = ?oz k" using that by (intro wordlist_step_other [OF ws]) auto
    also have "\<dots> = out0 k" using that by (intro zxcvbn_step_other) auto
    finally show ?thesis .
  qed
  then have "out ''entropy_bits'' = Some (VFloat (round2 entropy))"
    "out ''simple_score'' = Some (VInt score)"
    using out0 by simp_all
  with e s sc show ?thesis by blast
qed

lemma analyze_password_when_openable:
  assumes "\<forall>path. wordlist = Some path \<longrightarrow> env_fs env path \<noteq> Unreadable"
  shows "\<exists>out w'.
     analyze_password env w password wordlist hibp verbose = (Inr out, w')
     \<and> out ''password_length'' = Some (VInt (int (length password)))
     \<and> out ''has_upper'' = Some (VBool (fst (char_classes (env_rt env) password)))
     \<and> out ''has_lower'' = Some (VBool (fst (snd (char_classes (env_rt env) password))))
     \<and> out ''has_digit'' = Some (VBool (fst (snd (snd (char_classes (env_rt env) password)))))
     \<and> out ''has_special'' = Some (VBool (snd (snd (snd (char_classes (env_rt env) password)))))
     \<and> (\<exists>entropy. shannon_entropy password = Inr entropy
           \<and> out ''entropy_bits'' = Some (VFloat (round2 entropy)))
     \<and> (\<exists>score label. simple_score (env_rt env) password = Inr (score, label)
           \<and> out ''simple_score'' = Some (VInt score) \<and> out ''label'' = Some (VStr label))
     \<and> (\<forall>path. wordlist = Some path \<and> path \<noteq> [] \<and> env_fs env path = NotAFile \<longrightarrow>
           out ''found_in_wordlist'' = Some VNone
           \<and> out ''wordlist_error'' = Some (VStr (of_ascii ''Wordlist not found: '' @ path)))
     \<and> (\<forall>path ls. wordlist = Some path \<and> path \<noteq> [] \<and> env_fs env path = Lines ls \<longrightarrow>
           out ''found_in_wordlist''
             = Some (VBool (\<exists>line \<in> set ls. rstrip [13, 10] line = rstrip [10] password))
           \<and> out ''wordlist_error'' = None)
     \<and> (\<forall>e. hibp \<and> fst (hibp_pwned_count env w password) = Inl e \<longrightarrow>
           out ''hibp_error'' = Some (VStrOf e) \<and> out ''hibp_count'' = None)
     \<and> (\<forall>n. hibp \<and> fst (hibp_pwned_count env w password) = Inr n \<longrightarrow>
           out ''hibp_count'' = Some (VInt n) \<and> out ''hibp_error'' = None)"
proof -
  obtain entropy score label out0 where
    e: "shannon_entropy password = Inr entropy" and
    s: "simple_score (env_rt env) password = Inr (score, label)" and
    c: "core_fields (env_rt env) password = Inr out0" and
    out0: "out0 = [''password_length'' \<mapsto> VInt (int (length password)),
          ''has_upper'' \<mapsto> VBool (fst (char_classes (env_rt env) password)),
          ''has_lower'' \<mapsto> VBool (fst (snd (char_classes (env_rt env) password))),
          ''has_digit'' \<mapsto> VBool (fst (snd (snd (char_classes (env_rt env) password)))),
          ''has_special'' \<mapsto> VBool (snd (snd (snd (char_classes (env_rt env) password)))),
          ''entropy_bits'' \<mapsto> VFloat (round2 entropy),
          ''simple_score'' \<mapsto> VInt score,
          ''label'' \<mapsto> VStr label]"
    using core_fields_value [of password "env_rt env"] by blast
  let ?oz = "zxcvbn_step env password out0"
  obtain out1 where ws: "wordlist_step env password wordlist ?oz = Inr out1"
    using wordlist_step_returns [OF assms] by blast
  let ?oh = "fst (hibp_step env w password hibp out1)"
  let ?out = "verbose_step (env_rt env) password verbose ?oh"
  have run: "analyze_password env w password wordlist hibp verbose
               = (Inr ?out, snd (hibp_step env w password hibp out1))"
    by (rule analyze_password_value [OF c ws])
  have core: "?out k = out0 k"
    if "k \<in> {''password_length'', ''has_upper'', ''has_lower'', ''has_digit'', ''has_special'',
              ''entropy_bits'', ''simple_score'', ''label''}" for k
  proof -
    have "?out k = ?oh k" using that by (intro verbose_step_other) auto
    also have "\<dots> = out1 k" using that by (intro hibp_step_other) auto
    also have "\<dots> = ?oz k" using that by (intro wordlist_step_other [OF ws]) auto
    also have "\<dots> = out0 k" using that by (intro zxcvbn_step_other) auto
    finally show ?thesis .
  qed
  have 1: "?out ''password_length'' = Some (VInt (int (length password)))"
    and 2: "?out ''has_upper'' = Some (VBool (fst (char_classes (env_rt env) password)))"
    and 3: "?out ''has_lower'' = Some (VBool (fst (snd (char_classes (env_rt env) password))))"
    and 4: "?out ''has_digit'' = Some (VBool (fst (snd (snd (char_classes (env_rt env) password)))))"
    and 5: "?out ''has_special'' = Some (VBool (snd (snd (snd (char_classes (env_rt env) password)))))"
    and 6: "?out ''entropy_bits'' = Some (VFloat (round2 entropy))"
    and 7: "?out ''simple_score'' = Some (VInt score)"
    and 8: "?out ''label'' = Some (VStr label)"
    by (simp_all add: core out0)
  have oz_wl: "?oz ''found_in_wordlist'' = None" "?oz ''wordlist_error'' = None"
    by (simp_all add: zxcvbn_step_other out0)
  have wl: "?out k = out1 k" if "k \<in> {''found_in_wordlist'', ''wordlist_error''}" for k
  proof -
    have "?out k = ?oh k" using that by (intro verbose_step_other) auto
    also have "\<dots> = out1 k" using that by (intro hibp_step_other) auto
    finally show ?thesis .
  qed
  have 9: "\<forall>path. wordlist = Some path \<and> path \<noteq> [] \<and> env_fs env path = NotAFile \<longrightarrow>
           ?out ''found_in_wordlist'' = Some VNone
           \<and> ?out ''wordlist_error'' = Some (VStr (of_ascii ''Wordlist not found: '' @ path))"
    using ws by (auto simp: wl wordlist_step_cases)
  have 10: "\<forall>path ls. wordlist = Some path \<and> path \<noteq> [] \<and> env_fs env path = Lines ls \<longrightarrow>
           ?out ''found_in_wordlist''
             = Some (VBool (\<exists>line \<in> set ls. rstrip [13, 10] line = rstrip [10] password))
           \<and> ?out ''wordlist_error'' = None"
    using ws oz_wl by (auto simp: wl wordlist_step_cases)
  have out1_h: "out1 ''hibp_count'' = None" "out1 ''hibp_error'' = None"
    by (simp_all add: wordlist_step_other [OF ws] zxcvbn_step_other out0)
  have 11: "\<forall>e. hibp \<and> fst (hibp_pwned_count env w password) = Inl e \<longrightarrow>
           ?out ''hibp_error'' = Some (VStrOf e) \<and> ?out ''hibp_count'' = None"
    using out1_h by (simp add: verbose_step_other hibp_step_cases)
  have 12: "\<forall>n. hibp \<and> fst (hibp_pwned_count env w password) = Inr n \<longrightarrow>
           ?out ''hibp_count'' = Some (VInt n) \<and> ?out ''hibp_error'' = None"
    using out1_h by (simp add: verbose_step_other hibp_step_cases)
  show ?thesis
    using run 1 2 3 4 5 6 7 8 9 10 11 12 e s by blast
qed

lemma ex_siblings_captured:
  "\<exists>out w'.
     analyze_password (example_env wordlist_fs (Inr True) (serve 503 [])) fresh_world
       (of_ascii ''password'') (Some (of_ascii ''absent.txt'')) True False = (Inr out, w')
     \<and> out ''password_length'' = Some (VInt 8)
     \<and> out ''has_lower'' = Some (VBool True)
     \<and> out ''found_in_wordlist'' = Some VNone
     \<and> out ''wordlist_error'' = Some (VStr (of_ascii ''Wordlist not found: absent.txt''))
     \<and> out ''hibp_error'' = Some (VStrOf (RuntimeError (of_ascii ''HIBP API error: 503'')))
     \<and> out ''hibp_count'' = None"
proof -
  let ?E = "example_env wordlist_fs (Inr True) (serve 503 [])"
  let ?pw = "of_ascii ''password''"
  have h: "\<forall>path. Some (of_ascii ''absent.txt'') = Some path \<longrightarrow> env_fs ?E path \<noteq> Unreadable"
    by (simp add: example_env_def wordlist_fs_def of_ascii_def)
  have fs: "env_fs ?E (of_ascii ''absent.txt'') = NotAFile" "of_ascii ''absent.txt'' \<noteq> []"
    by (simp_all add: example_env_def wordlist_fs_def of_ascii_def)
  have hb: "fst (hibp_pwned_count ?E fresh_world ?pw)
              = Inl (RuntimeError (of_ascii ''HIBP API error: 503''))"
    using ex_status by (simp add: ex_hibp_password) (simp add: of_ascii_def)
  have cl: "fst (snd (char_classes (env_rt ?E) ?pw)) = True"
    by (simp add: char_classes_def any_char_def of_ascii_def islower_def)
  have msg: "of_ascii ''Wordlist not found: '' @ of_ascii ''absent.txt''
               = of_ascii ''Wordlist not found: absent.txt''"
    by (simp add: of_ascii_def)
  have len: "int (length ?pw) = 8" by (simp add: of_ascii_def)
  from analyze_password_when_openable [OF h, of fresh_world ?pw True False]
  obtain out w' where
    r: "analyze_password ?E fresh_world ?pw (Some (of_ascii ''absent.txt'')) True False = (Inr out, w')"
    and a: "out ''password_length'' = Some (VInt (int (length ?pw)))"
    and b: "out ''has_lower'' = Some (VBool (fst (snd (char_classes (env_rt ?E) ?pw))))"
    and c: "\<forall>path. Some (of_ascii ''absent.txt'') = Some path \<and> path \<noteq> [] \<and> env_fs ?E path = NotAFile \<longrightarrow>
           out ''found_in_wordlist'' = Some VNone
           \<and> out ''wordlist_error'' = Some (VStr (of_ascii ''Wordlist not found: '' @ path))"
    and d: "\<forall>e. True \<and> fst (hibp_pwned_count ?E fresh_world ?pw) = Inl e \<longrightarrow>
           out ''hibp_error'' = Some (VStrOf e) \<and> out ''hibp_count'' = None"
    by blast
  from c fs have c': "out ''found_in_wordlist'' = Some VNone
       \<and> out ''wordlist_error'' = Some (VStr (of_ascii ''Wordlist not found: '' @ of_ascii ''absent.txt''))"
    by blast
  from d hb have d': "out ''hibp_error'' = Some (VStrOf (RuntimeError (of_ascii ''HIBP API error: 503'')))
       \<and> out ''hibp_count'' = None"
    by blast
  show ?thesis
    using r a b c' d' by (simp only: cl msg len) blast
qed

lemma log2_3_lower: "19 / 12 < log 2 (3::real)"
proof -
  have "(2::real) ^ 19 < 3 ^ 12" by simp
  then have "log 2 ((2::real) ^ 19) < log 2 (3 ^ 12)"
    by (subst log_less_cancel_iff) simp_all
  moreover have "log 2 ((2::real) ^ 19) = real 19 * log 2 2" by (rule log_nat_power) simp
  moreover have "log 2 ((3::real) ^ 12) = real 12 * log 2 3" by (rule log_nat_power) simp
  ultimately have "real 19 * log 2 2 < real 12 * log 2 (3::real)" by (simp only:)
  then show ?thesis by simp
qed

lemma log2_3_upper: "log 2 (3::real) < 317 / 200"
proof -
  have "(3::real) ^ 200 < 2 ^ 317" by simp
  then have "log 2 ((3::real) ^ 200) < log 2 (2 ^ 317)"
    by (subst log_less_cancel_iff) simp_all
  moreover have "log 2 ((2::real) ^ 317) = real 317 * log 2 2" by (rule log_nat_power) simp
  moreover have "log 2 ((3::real) ^ 200) = real 200 * log 2 3" by (rule log_nat_power) simp
  ultimately have "real 200 * log 2 (3::real) < real 317 * log 2 2" by (simp only:)
  then show ?thesis by simp
qed

lemma round_half_even_nearest:
  "\<bar>of_int (round_half_even y) - y\<bar> \<le> 1 / 2
   \<and> (\<bar>of_int (round_half_even y) - y\<bar> = 1 / 2 \<longrightarrow> even (round_half_even y))"
proof -
  define f where "f = \<lfloor>y\<rfloor>"
  define d where "d = y - of_int f"
  define k where "k = round_half_even y"
  have d0: "0 \<le> d" and d1: "d < 1" by (simp_all add: d_def f_def) linarith+
  have rd: "k = (if d < 1 / 2 then f else if 1 / 2 < d then f + 1 else if even f then f else f + 1)"
    unfolding k_def round_half_even_def Let_def d_def f_def ..
  have goal: "\<bar>of_int k - y\<bar> \<le> 1 / 2 \<and> (\<bar>of_int k - y\<bar> = 1 / 2 \<longrightarrow> even k)"
  proof -
    consider "d < 1 / 2" | "1 / 2 < d" | "d = 1 / 2" by linarith
    then show ?thesis
    proof cases
      case 1
      then have "k = f" by (simp only: rd if_True)
      then have "of_int k - y = - d" by (simp add: d_def)
      then show ?thesis using 1 d0 by simp
    next
      case 2
      then have "k = f + 1" using rd by simp
      then have "of_int k - y = 1 - d" by (simp add: d_def)
      then show ?thesis using 2 d1 by simp
    next
      case 3
      then have kf: "k = (if even f then f else f + 1)" using rd by simp
      then have ev: "even k" by simp
      have "of_int k - y = - 1 / 2 \<or> of_int k - y = 1 / 2"
        using kf 3 by (auto simp: d_def)
      then have "\<bar>of_int k - y\<bar> = 1 / 2" by auto
      then show ?thesis using ev by simp
    qed
  qed
  then show ?thesis unfolding k_def .
qed

lemma round2_nearest:
  "\<exists>k::int. round2 x = of_int k / 100
     \<and> \<bar>round2 x - x\<bar> \<le> 1 / 200
     \<and> (\<bar>round2 x - x\<bar> = 1 / 200 \<longrightarrow> even k)"
proof -
  let ?k = "round_half_even (x * 100)"
  have e: "round2 x - x = (of_int ?k - x * 100) / 100" by (simp add: round2_def field_simps)
  have a: "\<bar>round2 x - x\<bar> = \<bar>of_int ?k - x * 100\<bar> / 100" unfolding e by simp
  have n: "\<bar>of_int ?k - x * 100\<bar> \<le> 1 / 2"
    and t: "\<bar>of_int ?k - x * 100\<bar> = 1 / 2 \<longrightarrow> even ?k"
    using round_half_even_nearest [of "x * 100"] by blast+
  have 1: "\<bar>round2 x - x\<bar> \<le> 1 / 200" unfolding a using n by simp
  have 2: "\<bar>round2 x - x\<bar> = 1 / 200 \<longrightarrow> even ?k" unfolding a using t by simp
  show ?thesis using 1 2 by (intro exI [of _ ?k]) (simp add: round2_def)
qed

lemma log2_16: "log 2 (16::real) = 4"
proof -
  have "log 2 ((2::real) ^ 4) = real 4 * log 2 2" by (rule log_nat_power) simp
  then show ?thesis by simp
qed

lemma entropy_long:
  "shannon_entropy (of_ascii ''aaabcdefghIJ12!?'') = Inr (64 - 3 * log 2 3)"
proof -
  let ?s = "[97, 97, 97, 98, 99, 100, 101, 102, 103, 104, 73, 74, 49, 50, 33, 63] :: nat list"
  have s: "of_ascii ''aaabcdefghIJ12!?'' = ?s" by (simp add: of_ascii_def)
  have l1: "log 2 (1 / 16 :: real) = - 4" by (simp add: log_divide log2_16)
  have l3: "log 2 (3 / 16 :: real) = log 2 3 - 4" by (simp add: log_divide log2_16)
  have "empirical_entropy ?s = 4 - 3 / 16 * log 2 3"
    by (simp add: empirical_entropy_def char_prob_def l1 l3 field_simps)
  then have "empirical_entropy ?s * real (length ?s) = 64 - 3 * log 2 3"
    by (simp add: algebra_simps)
  then show ?thesis unfolding s shannon_entropy_eq by (simp only:)
qed

lemma classes_long:
  "char_classes rt (of_ascii ''aaabcdefghIJ12!?'') = (True, True, True, True)"
  by (simp add: char_classes_def any_char_def of_ascii_def isupper_def islower_def
      isdigit_def isalnum_def)

lemma analyze_password_fields_spec:
  assumes "analyze_password env w password wordlist hibp verbose = (Inr out, w')"
  shows "\<exists>entropy bits score classes (k::int).
           entropy = empirical_entropy password * real (length password)
           \<and> shannon_entropy password = Inr entropy
           \<and> out ''entropy_bits'' = Some (VFloat bits)
           \<and> bits = of_int k / 100
           \<and> \<bar>bits - entropy\<bar> \<le> 1 / 200
           \<and> (\<bar>bits - entropy\<bar> = 1 / 200 \<longrightarrow> even k)
           \<and> classes = length (filter id
                 [\<exists>c \<in> set password. isupper (env_rt env) c,
                  \<exists>c \<in> set password. islower (env_rt env) c,
                  \<exists>c \<in> set password. isdigit (env_rt env) c,
                  \<exists>c \<in> set password. \<not> isalnum (env_rt env) c])
           \<and> out ''simple_score'' = Some (VInt score)
           \<and> score = of_bool (8 \<le> length password) + of_bool (12 \<le> length password)
                     + of_bool (2 \<le> classes) + of_bool (3 \<le> classes \<and> 40 \<le> entropy)"
proof -
  from analyze_password_fields [OF assms] obtain entropy score label where
    e: "shannon_entropy password = Inr entropy" and
    sc: "score = score_steps (int (length password))
                   (sum_flags (char_classes (env_rt env) password)) entropy" and
    eb: "out ''entropy_bits'' = Some (VFloat (round2 entropy))" and
    ss: "out ''simple_score'' = Some (VInt score)"
    by blast
  have ev: "entropy = empirical_entropy password * real (length password)"
    using e by (simp add: shannon_entropy_eq)
  obtain k :: int where
    k: "round2 entropy = of_int k / 100" "\<bar>round2 entropy - entropy\<bar> \<le> 1 / 200"
       "\<bar>round2 entropy - entropy\<bar> = 1 / 200 \<longrightarrow> even k"
    using round2_nearest [of entropy] by blast
  let ?fl = "[\<exists>c \<in> set password. isupper (env_rt env) c,
              \<exists>c \<in> set password. islower (env_rt env) c,
              \<exists>c \<in> set password. isdigit (env_rt env) c,
              \<exists>c \<in> set password. \<not> isalnum (env_rt env) c]"
  have sf: "sum_flags (char_classes (env_rt env) password) = int (length (filter id ?fl))"
    unfolding char_classes_flags by (rule sum_flags_count)
  have sc': "score = of_bool (8 \<le> length password) + of_bool (12 \<le> length password)
                     + of_bool (2 \<le> length (filter id ?fl))
                     + of_bool (3 \<le> length (filter id ?fl) \<and> 40 \<le> entropy)"
    unfolding sc sf by (simp add: score_steps_def)
  show ?thesis
    by (intro exI conjI) (rule ev e eb k ss sc' refl)+
qed

text \<open>
  Claim C6. The wordlist block of \<open>analyze_password\<close> catches \<open>FileNotFoundError\<close> only,
  where the zxcvbn and breach lookup blocks catch every \<open>Exception\<close>. For a wordlist that
  exists and cannot be read, the \<open>PermissionError\<close> therefore leaves \<open>analyze_password\<close>:
  no result and none of the mandatory fields is produced, and the breach lookup that was
  asked for is never attempted (the state is unchanged). The failures that the claim
  names are captured: with a missing wordlist and a breach lookup answered with status
  503 the result holds the length, \<open>found_in_wordlist = None\<close> with its reason, and
  \<open>hibp_error\<close> instead of \<open>hibp_count\<close>.
\<close>

theorem unreadable_wordlist_escapes_analyze_password:
  "analyze_password (example_env wordlist_fs (Inr True) (serve 200 sample_body)) fresh_world
     (of_ascii ''qwerty'') (Some (of_ascii ''locked.txt'')) True True
     = (Inl (PermissionError (of_ascii ''locked.txt'')), fresh_world)
   \<and> (\<exists>out w'.
         analyze_password (example_env wordlist_fs (Inr True) (serve 503 [])) fresh_world
           (of_ascii ''password'') (Some (of_ascii ''absent.txt'')) True False = (Inr out, w')
         \<and> out ''password_length'' = Some (VInt 8)
         \<and> out ''found_in_wordlist'' = Some VNone
         \<and> out ''wordlist_error'' = Some (VStr (of_ascii ''Wordlist not found: absent.txt''))
         \<and> out ''hibp_error'' = Some (VStrOf (RuntimeError (of_ascii ''HIBP API error: 503'')))
         \<and> out ''hibp_count'' = None)"
proof -
  let ?E = "example_env wordlist_fs (Inr True) (serve 200 sample_body)"
  obtain out0 where c: "core_fields (env_rt ?E) (of_ascii ''qwerty'') = Inr out0"
    using core_fields_value [of "of_ascii ''qwerty''" "env_rt ?E"] by blast
  have "wordlist_step ?E (of_ascii ''qwerty'') (Some (of_ascii ''locked.txt''))
          (zxcvbn_step ?E (of_ascii ''qwerty'') out0) = Inl (PermissionError (of_ascii ''locked.txt''))"
    by (simp add: wordlist_step_cases example_env_def wordlist_fs_def of_ascii_def)
  then have 1: "analyze_password ?E fresh_world (of_ascii ''qwerty'')
                  (Some (of_ascii ''locked.txt'')) True True
                = (Inl (PermissionError (of_ascii ''locked.txt'')), fresh_world)"
    by (simp add: analyze_password_raises [OF c])
  show ?thesis using 1 ex_siblings_captured by blast
qed

text \<open>
  Claim C10. In every result of \<open>analyze_password\<close>, \<open>entropy_bits\<close> is the entropy
  estimate rounded to two decimals: a whole number of hundredths, at most half a
  hundredth away from the estimate, the even one of the two candidates when the estimate
  lies exactly between them. The score in the same result is the number of thresholds
  that hold for the estimate itself, not for its rounding. The two values can differ
  where the threshold 40 is tested: for \<open>aaabcdefghIJ12!?\<close>, with four classes, the
  estimate is \<open>64 - 3 * log 2 3\<close>, at least 40, and \<open>entropy_bits\<close> is another number.
\<close>

theorem entropy_bits_rounded_score_unrounded:
  "(analyze_password env w password wordlist hibp verbose = (Inr out, w') \<longrightarrow>
      (\<exists>entropy bits score classes (k::int).
           entropy = empirical_entropy password * real (length password)
           \<and> shannon_entropy password = Inr entropy
           \<and> out ''entropy_bits'' = Some (VFloat bits)
           \<and> bits = of_int k / 100
           \<and> \<bar>bits - entropy\<bar> \<le> 1 / 200
           \<and> (\<bar>bits - entropy\<bar> = 1 / 200 \<longrightarrow> even k)
           \<and> classes = length (filter id
                 [\<exists>c \<in> set password. isupper (env_rt env) c,
                  \<exists>c \<in> set password. islower (env_rt env) c,
                  \<exists>c \<in> set password. isdigit (env_rt env) c,
                  \<exists>c \<in> set password. \<not> isalnum (env_rt env) c])
           \<and> out ''simple_score'' = Some (VInt score)
           \<and> score = of_bool (8 \<le> length password) + of_bool (12 \<le> length password)
                     + of_bool (2 \<le> classes) + of_bool (3 \<le> classes \<and> 40 \<le> entropy)))
   \<and> (\<exists>out' w'' entropy bits.
         analyze_password (example_env wordlist_fs (Inr True) (serve 200 sample_body)) fresh_world
           (of_ascii ''aaabcdefghIJ12!?'') None False False = (Inr out', w'')
         \<and> shannon_entropy (of_ascii ''aaabcdefghIJ12!?'') = Inr entropy
         \<and> out' ''entropy_bits'' = Some (VFloat bits)
         \<and> 40 \<le> entropy \<and> bits \<noteq> entropy)"
proof -
  let ?E = "example_env wordlist_fs (Inr True) (serve 200 sample_body)"
  let ?pw = "of_ascii ''aaabcdefghIJ12!?''"
  let ?e = "64 - 3 * log 2 3 :: real"
  obtain out0 where c: "core_fields (env_rt ?E) ?pw = Inr out0"
    using core_fields_value [of ?pw "env_rt ?E"] by blast
  have ws: "wordlist_step ?E ?pw None (zxcvbn_step ?E ?pw out0) = Inr (zxcvbn_step ?E ?pw out0)"
    by (simp add: wordlist_step_def)
  obtain out' where
    run: "analyze_password ?E fresh_world ?pw None False False = (Inr out', fresh_world)"
    using analyze_password_value [OF c ws, of fresh_world False False]
    by (simp add: hibp_step_def)
  from analyze_password_fields_spec [OF run] obtain bits and k :: int where
    eb: "out' ''entropy_bits'' = Some (VFloat bits)" and
    bk: "bits = of_int k / 100"
    by (elim exE conjE)
  have lo: "592450 / 100 < ?e * 100" using log2_3_upper by simp
  have hi: "?e * 100 < 5925" using log2_3_lower by simp
  have ne: "bits \<noteq> ?e"
  proof
    assume "bits = ?e"
    then have "of_int k = ?e * 100" using bk by simp
    then have "5924 < (of_int k :: real)" "(of_int k :: real) < 5925" using lo hi by simp_all
    then have "5924 < k" "k < 5925" by linarith+
    then show False by simp
  qed
  have ge: "40 \<le> ?e" using log2_3_upper by simp
  have 2: "\<exists>out' w'' entropy bits.
         analyze_password ?E fresh_world ?pw None False False = (Inr out', w'')
         \<and> shannon_entropy ?pw = Inr entropy
         \<and> out' ''entropy_bits'' = Some (VFloat bits)
         \<and> 40 \<le> entropy \<and> bits \<noteq> entropy"
    by (intro exI conjI) (rule run entropy_long eb ge ne)+
  have 1: "analyze_password env w password wordlist hibp verbose = (Inr out, w') \<longrightarrow>
      (\<exists>entropy bits score classes (k::int).
           entropy = empirical_entropy password * real (length password)
           \<and> shannon_entropy password = Inr entropy
           \<and> out ''entropy_bits'' = Some (VFloat bits)
           \<and> bits = of_int k / 100
           \<and> \<bar>bits - entropy\<bar> \<le> 1 / 200
           \<and> (\<bar>bits - entropy\<bar> = 1 / 200 \<longrightarrow> even k)
           \<and> classes = length (filter id
                 [\<exists>c \<in> set password. isupper (env_rt env) c,
                  \<exists>c \<in> set password. islower (env_rt env) c,
                  \<exists>c \<in> set password. isdigit (env_rt env) c,
                  \<exists>c \<in> set password. \<not> isalnum (env_rt env) c])
           \<and> out ''simple_score'' = Some (VInt score)
           \<and> score = of_bool (8 \<le> length password) + of_bool (12 \<le> length password)
                     + of_bool (2 \<le> classes) + of_bool (3 \<le> classes \<and> 40 \<le> entropy))"
    by (rule impI) (rule analyze_password_fields_spec)
  show ?thesis by (rule conjI [OF 1 2])
qed

theorem entropy_bits_rounded_score_unrounded_witness:
  "\<exists>out. analyze_password (example_env wordlist_fs (Inr True) (serve 200 sample_body)) fresh_world
            (of_ascii ''aaabcdefghIJ12!?'') None False False = (Inr out, fresh_world)
     \<and> shannon_entropy (of_ascii ''aaabcdefghIJ12!?'') = Inr (64 - 3 * log 2 3)
     \<and> 40 \<le> 64 - 3 * log 2 (3::real)
     \<and> out ''entropy_bits'' = Some (VFloat (5925 / 100))
     \<and> 64 - 3 * log 2 (3::real) < 5925 / 100
     \<and> out ''simple_score'' = Some (VInt 4)"
proof -
  let ?E = "example_env wordlist_fs (Inr True) (serve 200 sample_body)"
  let ?pw = "of_ascii ''aaabcdefghIJ12!?''"
  let ?e = "64 - 3 * log 2 3 :: real"
  obtain out0 where c: "core_fields (env_rt ?E) ?pw = Inr out0"
    using core_fields_value [of ?pw "env_rt ?E"] by blast
  have ws: "wordlist_step ?E ?pw None (zxcvbn_step ?E ?pw out0) = Inr (zxcvbn_step ?E ?pw out0)"
    by (simp add: wordlist_step_def)
  obtain out where
    run: "analyze_password ?E fresh_world ?pw None False False = (Inr out, fresh_world)"
    using analyze_password_value [OF c ws, of fresh_world False False]
    by (simp add: hibp_step_def)
  note main = entropy_bits_rounded_score_unrounded
         [of ?E fresh_world ?pw None False False out fresh_world, THEN conjunct1, THEN mp, OF run]
  from main obtain entropy bits score classes and k :: int where
    e: "shannon_entropy ?pw = Inr entropy" and
    eb: "out ''entropy_bits'' = Some (VFloat bits)" and
    bk: "bits = of_int k / 100" and
    near: "\<bar>bits - entropy\<bar> \<le> 1 / 200" and
    cl: "classes = length (filter id
                 [\<exists>c \<in> set ?pw. isupper (env_rt ?E) c,
                  \<exists>c \<in> set ?pw. islower (env_rt ?E) c,
                  \<exists>c \<in> set ?pw. isdigit (env_rt ?E) c,
                  \<exists>c \<in> set ?pw. \<not> isalnum (env_rt ?E) c])" and
    ss: "out ''simple_score'' = Some (VInt score)" and
    sc: "score = of_bool (8 \<le> length ?pw) + of_bool (12 \<le> length ?pw)
                     + of_bool (2 \<le> classes) + of_bool (3 \<le> classes \<and> 40 \<le> entropy)"
    by (elim exE conjE)
  have ev: "entropy = ?e" using e entropy_long by simp
  have lo: "592450 / 100 < ?e * 100" using log2_3_upper by simp
  have hi: "?e * 100 < 5925" using log2_3_lower by simp
  have ge: "40 \<le> ?e" using log2_3_upper by simp
  have "\<bar>of_int k - ?e * 100\<bar> \<le> 1 / 2" using near unfolding bk ev by (simp add: field_simps)
  then have "5924 < (of_int k :: real)" "(of_int k :: real) < 5926" using lo hi by linarith+
  then have "5924 < k" "k < 5926" by linarith+
  then have k: "k = 5925" by simp
  have fl: "char_classes (env_rt ?E) ?pw = (True, True, True, True)" by (rule classes_long)
  have c4: "classes = 4"
    using fl unfolding char_classes_flags cl by simp
  have "score = 4" unfolding sc c4 ev using ge by (simp add: of_ascii_def)
  then show ?thesis
    using run entropy_long ge eb ss hi unfolding bk k by (intro exI [of _ out]) simp
qed

end
